theory Spec2Isabelle
  imports Complex_Main
begin

section \<open>The module tree of xresnet.py\<close>

text \<open>
  The file \<^verbatim>\<open>fastai/vision/models/xresnet.py\<close> assembles framework layers into a
  network. A layer object is a node of a tree: a primitive layer with its constructor
  arguments and the state of its parameter tensors, or a container with its children in
  registration order. Python's integers are unbounded, so every channel count, kernel
  size and stride is an \<^typ>\<open>int\<close>.

  A parameter tensor is described by the last initialiser that wrote it. The framework's
  random generator is a counter of draws: a tensor filled by a random initialiser carries
  the generator state it was drawn at.
\<close>

type_synonym rng = nat

datatype tensor_init =
    Framework_default
  | Kaiming_normal rng
  | Constant int
  | Normal rat rat rng

datatype module =
    Conv2d (in_channels: int) (out_channels: int) (kernel_size: int) (conv_stride: int)
           (padding: int) (conv_weight: tensor_init) (conv_bias: "tensor_init option")
  | ReLU (inplace: bool)
  | BatchNorm2d (num_features: int) (bn_weight: tensor_init) (bn_bias: tensor_init)
  | BatchNorm1d int tensor_init tensor_init
  | MaxPool2d int int int
  | AvgPool2d int int
  | AdaptiveAvgPool2d int
  | Linear (in_features: int) (out_features: int) (lin_weight: tensor_init)
           (lin_bias: tensor_init)
  | Sequential (layers_of: "module list")
  | BasicBlock (conv1: module) (conv2: module) (downsample: "module option") (stride: int)
  | Bottleneck (conv1: module) (conv2: module) (conv3: module)
               (downsample: "module option") (stride: int)
  | XResNet (self_ni: int) (conv1: module) (conv2: module) (conv3: module) (maxpool: module)
            (layer1: module) (layer2: module) (layer3: module) (layer4: module)
            (avgpool: module) (fc: module)

text \<open>
  The exceptions: those that the file's own statements raise, and those that the
  framework raises inside them (\<^verbatim>\<open>nn.Linear\<close> on a size it refuses, \<^verbatim>\<open>torch.load\<close> on
  a missing file, \<^verbatim>\<open>load_state_dict\<close> on a state dict that does not fit).
\<close>

datatype error = IndexError | KeyError | TypeError | AttributeError | OSError | RuntimeError

subsection \<open>Layer constructors\<close>

text \<open>\<^verbatim>\<open>conv(ni, nf, ks=3, stride=1, bias=False)\<close>; \<^verbatim>\<open>ks//2\<close> is floor division.\<close>

definition conv :: "int \<Rightarrow> int \<Rightarrow> int \<Rightarrow> int \<Rightarrow> bool \<Rightarrow> module" where
  "conv ni nf ks strd bias =
     Conv2d ni nf ks strd (ks div 2) Framework_default
       (if bias then Some Framework_default else None)"

text \<open>\<^verbatim>\<open>conv_relu_bn_(ni, nf, ks=3, stride=1, rev=False)\<close>: the list of three layers.\<close>

definition conv_relu_bn :: "int \<Rightarrow> int \<Rightarrow> int \<Rightarrow> int \<Rightarrow> bool \<Rightarrow> module list" where
  "conv_relu_bn ni nf ks strd rv =
     (let layers = [conv ni nf ks strd False,
                    ReLU True,
                    BatchNorm2d (if rv then ni else nf) Framework_default Framework_default]
      in if rv then rev layers else layers)"

definition conv_bn_relu :: "int \<Rightarrow> int \<Rightarrow> int \<Rightarrow> int \<Rightarrow> module" where
  "conv_bn_relu ni nf ks strd = Sequential (conv_relu_bn ni nf ks strd False)"

definition bn_relu_conv :: "int \<Rightarrow> int \<Rightarrow> int \<Rightarrow> int \<Rightarrow> module" where
  "bn_relu_conv ni nf ks strd = Sequential (conv_relu_bn ni nf ks strd True)"

subsection \<open>Residual blocks\<close>

text \<open>
  The two block classes of the file, their class attribute \<^verbatim>\<open>expansion\<close> and their
  constructors \<^verbatim>\<open>__init__(self, ni, nf, stride=1, downsample=None)\<close>.
\<close>

datatype block = BasicBlock_class | Bottleneck_class

fun expansion :: "block \<Rightarrow> int" where
  "expansion BasicBlock_class = 1"
| "expansion Bottleneck_class = 4"

definition BasicBlock_init :: "int \<Rightarrow> int \<Rightarrow> int \<Rightarrow> module option \<Rightarrow> module" where
  "BasicBlock_init n nf strd ds =
     BasicBlock (bn_relu_conv n nf 3 strd) (bn_relu_conv nf nf 3 1) ds strd"

definition Bottleneck_init :: "int \<Rightarrow> int \<Rightarrow> int \<Rightarrow> module option \<Rightarrow> module" where
  "Bottleneck_init n nf strd ds =
     Bottleneck (bn_relu_conv n nf 1 1) (bn_relu_conv nf nf 3 strd)
       (bn_relu_conv nf (nf * expansion Bottleneck_class) 1 1) ds strd"

fun new_block :: "block \<Rightarrow> int \<Rightarrow> int \<Rightarrow> int \<Rightarrow> module option \<Rightarrow> module" where
  "new_block BasicBlock_class n nf strd ds = BasicBlock_init n nf strd ds"
| "new_block Bottleneck_class n nf strd ds = Bottleneck_init n nf strd ds"

subsection \<open>Stages\<close>

text \<open>
  \<^verbatim>\<open>XResNet._make_layer(self, block, nf, blocks, stride=1)\<close> reads and writes the
  attribute \<^verbatim>\<open>self.ni\<close>: the model takes its value and returns the stage together with
  the new value. \<^verbatim>\<open>range(1, blocks)\<close> is the integer interval from 1 to
  \<^verbatim>\<open>blocks - 1\<close>, empty when \<^verbatim>\<open>blocks\<close> is at most 1.
\<close>

definition make_downsample :: "int \<Rightarrow> block \<Rightarrow> int \<Rightarrow> int \<Rightarrow> module option" where
  "make_downsample cur_ni blk nf strd =
     (if strd \<noteq> 1 \<or> cur_ni \<noteq> nf * expansion blk
      then Some (Sequential
             ((if strd = 2 then [AvgPool2d 2 2] else []) @
              [conv cur_ni (nf * expansion blk) 1 1 False,
               BatchNorm2d (nf * expansion blk) Framework_default Framework_default]))
      else None)"

definition make_layer :: "int \<Rightarrow> block \<Rightarrow> int \<Rightarrow> int \<Rightarrow> int \<Rightarrow> module \<times> int" where
  "make_layer cur_ni blk nf blocks strd =
     (let ds = make_downsample cur_ni blk nf strd;
          first = new_block blk cur_ni nf strd ds;
          ni_next = nf * expansion blk
      in (Sequential (first # map (\<lambda>i. new_block blk ni_next nf 1 None) [1..blocks - 1]),
          ni_next))"

subsection \<open>Errors\<close>

text \<open>An exception is a value: a computation that may raise returns \<open>error + 'a\<close>.\<close>

definition bind_err :: "error + 'a \<Rightarrow> ('a \<Rightarrow> error + 'b) \<Rightarrow> error + 'b" where
  "bind_err r f = (case r of Inl e \<Rightarrow> Inl e | Inr v \<Rightarrow> f v)"

lemma bind_err_cong [fundef_cong]:
  "r = r' \<Longrightarrow> (\<And>v. r' = Inr v \<Longrightarrow> f v = f' v) \<Longrightarrow> bind_err r f = bind_err r' f'"
  by (auto simp: bind_err_def split: sum.splits)

text \<open>\<^verbatim>\<open>layers[i]\<close> for a constant index \<^verbatim>\<open>i\<close> from 0 to 3.\<close>

definition getitem :: "'a list \<Rightarrow> nat \<Rightarrow> error + 'a" where
  "getitem xs i = (if i < length xs then Inr (xs ! i) else Inl IndexError)"

subsection \<open>Initialisation\<close>

text \<open>
  \<^verbatim>\<open>init_cnn(m)\<close> writes the parameters of \<^verbatim>\<open>m\<close> when it is a \<^verbatim>\<open>Conv2d\<close> or a
  \<^verbatim>\<open>BatchNorm2d\<close>, then calls itself on \<^verbatim>\<open>m.children()\<close> in registration order. A
  \<^verbatim>\<open>downsample\<close> attribute that is \<^verbatim>\<open>None\<close> is not a child. The generator state is
  threaded through the calls; only \<^verbatim>\<open>kaiming_normal_\<close> draws from it.
\<close>

fun init_cnn :: "module \<Rightarrow> rng \<Rightarrow> module \<times> rng"
and init_cnn_children :: "module list \<Rightarrow> rng \<Rightarrow> module list \<times> rng" where
  "init_cnn (Conv2d i o' k s p w b) g =
     (Conv2d i o' k s p (Kaiming_normal g)
        (case b of None \<Rightarrow> None | Some _ \<Rightarrow> Some (Constant 0)), Suc g)"
| "init_cnn (BatchNorm2d n w b) g = (BatchNorm2d n (Constant 1) (Constant 0), g)"
| "init_cnn (Sequential ms) g =
     (let (ms', g') = init_cnn_children ms g in (Sequential ms', g'))"
| "init_cnn (BasicBlock c1 c2 ds s) g =
     (let (c1', g1) = init_cnn c1 g;
          (c2', g2) = init_cnn c2 g1;
          (ds', g3) = (case ds of None \<Rightarrow> (None, g2)
                       | Some d \<Rightarrow> (let (d', g') = init_cnn d g2 in (Some d', g')))
      in (BasicBlock c1' c2' ds' s, g3))"
| "init_cnn (Bottleneck c1 c2 c3 ds s) g =
     (let (c1', g1) = init_cnn c1 g;
          (c2', g2) = init_cnn c2 g1;
          (c3', g3) = init_cnn c3 g2;
          (ds', g4) = (case ds of None \<Rightarrow> (None, g3)
                       | Some d \<Rightarrow> (let (d', g') = init_cnn d g3 in (Some d', g')))
      in (Bottleneck c1' c2' c3' ds' s, g4))"
| "init_cnn (XResNet n c1 c2 c3 mp l1 l2 l3 l4 ap f) g =
     (let (c1', g1) = init_cnn c1 g;
          (c2', g2) = init_cnn c2 g1;
          (c3', g3) = init_cnn c3 g2;
          (mp', g4) = init_cnn mp g3;
          (l1', g5) = init_cnn l1 g4;
          (l2', g6) = init_cnn l2 g5;
          (l3', g7) = init_cnn l3 g6;
          (l4', g8) = init_cnn l4 g7;
          (ap', g9) = init_cnn ap g8;
          (f', g10) = init_cnn f g9
      in (XResNet n c1' c2' c3' mp' l1' l2' l3' l4' ap' f', g10))"
| "init_cnn (ReLU v) g = (ReLU v, g)"
| "init_cnn (BatchNorm1d n w b) g = (BatchNorm1d n w b, g)"
| "init_cnn (MaxPool2d k s p) g = (MaxPool2d k s p, g)"
| "init_cnn (AvgPool2d k s) g = (AvgPool2d k s, g)"
| "init_cnn (AdaptiveAvgPool2d k) g = (AdaptiveAvgPool2d k, g)"
| "init_cnn (Linear i o' w b) g = (Linear i o' w b, g)"
| "init_cnn_children [] g = ([], g)"
| "init_cnn_children (m # ms) g =
     (let (m', g1) = init_cnn m g; (ms', g2) = init_cnn_children ms g1 in (m' # ms', g2))"

text \<open>
  The loop \<^verbatim>\<open>for m in self.modules()\<close> at the end of \<^verbatim>\<open>XResNet.__init__\<close> visits the
  module and its descendants in pre-order. At a block it evaluates
  \<^verbatim>\<open>m.conv2[0].weight\<close> (or \<^verbatim>\<open>m.conv3[0].weight\<close>): indexing something that is not a
  \<^verbatim>\<open>Sequential\<close> raises \<^verbatim>\<open>TypeError\<close>, indexing an empty one \<^verbatim>\<open>IndexError\<close>, and a
  layer without a \<^verbatim>\<open>weight\<close> raises \<^verbatim>\<open>AttributeError\<close>.
\<close>

fun set_weight :: "tensor_init \<Rightarrow> module \<Rightarrow> error + module" where
  "set_weight t (Conv2d i o' k s p w b) = Inr (Conv2d i o' k s p t b)"
| "set_weight t (BatchNorm2d n w b) = Inr (BatchNorm2d n t b)"
| "set_weight t (BatchNorm1d n w b) = Inr (BatchNorm1d n t b)"
| "set_weight t (Linear i o' w b) = Inr (Linear i o' t b)"
| "set_weight t m = Inl AttributeError"

fun zero_first :: "module \<Rightarrow> error + module" where
  "zero_first (Sequential []) = Inl IndexError"
| "zero_first (Sequential (x # xs)) =
     bind_err (set_weight (Constant 0) x) (\<lambda>x'. Inr (Sequential (x' # xs)))"
| "zero_first m = Inl TypeError"

lemma size_set_weight: "set_weight t m = Inr m' \<Longrightarrow> size m' = size m"
  by (cases m) auto

lemma size_zero_first: "zero_first m = Inr m' \<Longrightarrow> size m' = size m"
  by (induction m rule: zero_first.induct)
     (auto simp: bind_err_def split: sum.splits dest: size_set_weight)

function modules_loop :: "module \<Rightarrow> rng \<Rightarrow> error + module \<times> rng"
and modules_loop_children :: "module list \<Rightarrow> rng \<Rightarrow> error + module list \<times> rng" where
  "modules_loop (Linear i o' w b) g = Inr (Linear i o' (Normal 0 (1 / 100) g) b, Suc g)"
| "modules_loop (Sequential ms) g =
     bind_err (modules_loop_children ms g) (\<lambda>(ms', g'). Inr (Sequential ms', g'))"
| "modules_loop (BasicBlock c1 c2 ds s) g =
     bind_err (zero_first c2) (\<lambda>c2z.
     bind_err (modules_loop c1 g) (\<lambda>(c1', g1).
     bind_err (modules_loop c2z g1) (\<lambda>(c2', g2).
     bind_err (case ds of None \<Rightarrow> Inr (None, g2)
               | Some d \<Rightarrow> bind_err (modules_loop d g2) (\<lambda>(d', g'). Inr (Some d', g')))
       (\<lambda>(ds', g3). Inr (BasicBlock c1' c2' ds' s, g3)))))"
| "modules_loop (Bottleneck c1 c2 c3 ds s) g =
     bind_err (zero_first c3) (\<lambda>c3z.
     bind_err (modules_loop c1 g) (\<lambda>(c1', g1).
     bind_err (modules_loop c2 g1) (\<lambda>(c2', g2).
     bind_err (modules_loop c3z g2) (\<lambda>(c3', g3).
     bind_err (case ds of None \<Rightarrow> Inr (None, g3)
               | Some d \<Rightarrow> bind_err (modules_loop d g3) (\<lambda>(d', g'). Inr (Some d', g')))
       (\<lambda>(ds', g4). Inr (Bottleneck c1' c2' c3' ds' s, g4))))))"
| "modules_loop (XResNet n c1 c2 c3 mp l1 l2 l3 l4 ap f) g =
     bind_err (modules_loop c1 g) (\<lambda>(c1', g1).
     bind_err (modules_loop c2 g1) (\<lambda>(c2', g2).
     bind_err (modules_loop c3 g2) (\<lambda>(c3', g3).
     bind_err (modules_loop mp g3) (\<lambda>(mp', g4).
     bind_err (modules_loop l1 g4) (\<lambda>(l1', g5).
     bind_err (modules_loop l2 g5) (\<lambda>(l2', g6).
     bind_err (modules_loop l3 g6) (\<lambda>(l3', g7).
     bind_err (modules_loop l4 g7) (\<lambda>(l4', g8).
     bind_err (modules_loop ap g8) (\<lambda>(ap', g9).
     bind_err (modules_loop f g9) (\<lambda>(f', g10).
       Inr (XResNet n c1' c2' c3' mp' l1' l2' l3' l4' ap' f', g10)))))))))))"
| "modules_loop (Conv2d i o' k s p w b) g = Inr (Conv2d i o' k s p w b, g)"
| "modules_loop (ReLU v) g = Inr (ReLU v, g)"
| "modules_loop (BatchNorm2d n w b) g = Inr (BatchNorm2d n w b, g)"
| "modules_loop (BatchNorm1d n w b) g = Inr (BatchNorm1d n w b, g)"
| "modules_loop (MaxPool2d k s p) g = Inr (MaxPool2d k s p, g)"
| "modules_loop (AvgPool2d k s) g = Inr (AvgPool2d k s, g)"
| "modules_loop (AdaptiveAvgPool2d k) g = Inr (AdaptiveAvgPool2d k, g)"
| "modules_loop_children [] g = Inr ([], g)"
| "modules_loop_children (m # ms) g =
     bind_err (modules_loop m g) (\<lambda>(m', g1).
     bind_err (modules_loop_children ms g1) (\<lambda>(ms', g2). Inr (m' # ms', g2)))"
  by pat_completeness auto
termination
  by (relation "measure (\<lambda>x. case x of Inl (m, g) \<Rightarrow> size m
                                         | Inr (ms, g) \<Rightarrow> size_list size ms)")
     (auto dest: size_zero_first)

subsection \<open>The network\<close>

text \<open>
  \<^verbatim>\<open>nn.Linear(ni, num_classes)\<close> allocates a weight of \<^verbatim>\<open>num_classes\<close> rows: the
  framework raises \<^verbatim>\<open>RuntimeError\<close> for a negative number of rows and \<^verbatim>\<open>TypeError\<close> for
  one that does not fit a signed 64-bit integer. Every other layer of the network is
  constructed from positive constants of the file.
\<close>

definition Linear_init :: "int \<Rightarrow> int \<Rightarrow> error + module" where
  "Linear_init n_in n_out =
     (if n_out < 0 then Inl RuntimeError
      else if 2 ^ 63 \<le> n_out then Inl TypeError
      else Inr (Linear n_in n_out Framework_default Framework_default))"

text \<open>
  \<^verbatim>\<open>XResNet.__init__(self, block, layers, num_classes=1000)\<close>. The assembly (lines 72
  to 87 of the file) draws nothing; \<^verbatim>\<open>layers[i]\<close> raises \<^verbatim>\<open>IndexError\<close> on a list that
  is too short, before \<^verbatim>\<open>nn.Linear\<close> is reached. The local \<^verbatim>\<open>ni\<close> of line 82 is not
  the attribute \<^verbatim>\<open>self.ni\<close>.
\<close>

definition XResNet_assemble :: "block \<Rightarrow> int list \<Rightarrow> int \<Rightarrow> error + module" where
  "XResNet_assemble blk layers num_classes =
     (let n0 = 64;
          c1 = conv_bn_relu 3 32 3 2;
          c2 = conv_bn_relu 32 32 3 1;
          c3 = conv 32 64 3 1 False;
          mp = MaxPool2d 3 2 1
      in bind_err (getitem layers 0) (\<lambda>b1. let (l1, n1) = make_layer n0 blk 64 b1 1
      in bind_err (getitem layers 1) (\<lambda>b2. let (l2, n2) = make_layer n1 blk 128 b2 2
      in bind_err (getitem layers 2) (\<lambda>b3. let (l3, n3) = make_layer n2 blk 256 b3 2
      in bind_err (getitem layers 3) (\<lambda>b4. let (l4, n4) = make_layer n3 blk 512 b4 2;
             n = 512 * expansion blk
      in bind_err (Linear_init n num_classes) (\<lambda>lin.
           Inr (XResNet n4 c1 c2 c3 mp l1 l2 l3 l4 (AdaptiveAvgPool2d 1)
                 (Sequential [ReLU True,
                              BatchNorm1d n Framework_default Framework_default,
                              lin]))))))))"

definition XResNet_init :: "block \<Rightarrow> int list \<Rightarrow> int \<Rightarrow> rng \<Rightarrow> error + module \<times> rng" where
  "XResNet_init blk layers num_classes g =
     bind_err (XResNet_assemble blk layers num_classes) (\<lambda>m.
       let (m1, g1) = init_cnn m g in modules_loop m1 g1)"

subsection \<open>Pretrained constructors\<close>

text \<open>
  \<^verbatim>\<open>model_urls\<close> is a dictionary with two keys. \<^verbatim>\<open>torch.load\<close> and
  \<^verbatim>\<open>load_state_dict\<close> belong to the framework and read the file system: they are
  parameters of the model, and every call of either is recorded in a trace. The keyword
  arguments carry \<^verbatim>\<open>num_classes\<close> or nothing.
\<close>

definition model_urls :: "string \<rightharpoonup> string" where
  "model_urls = [''xresnet34'' \<mapsto> ''xresnet34'', ''xresnet50'' \<mapsto> ''xresnet50'']"

record 'sd torch =
  torch_load :: "string \<Rightarrow> error + 'sd"
  load_state_dict :: "module \<Rightarrow> 'sd \<Rightarrow> error + module"

datatype 'sd event = Torch_load string | Load_state_dict 'sd

definition num_classes_of :: "int option \<Rightarrow> int" where
  "num_classes_of kwargs = (case kwargs of None \<Rightarrow> 1000 | Some n \<Rightarrow> n)"

definition xresnet ::
  "'sd torch \<Rightarrow> block \<Rightarrow> int list \<Rightarrow> string \<Rightarrow> bool \<Rightarrow> int option \<Rightarrow> rng
     \<Rightarrow> (error + module) \<times> 'sd event list" where
  "xresnet th blk n_layers name pre kwargs g =
     (case XResNet_init blk n_layers (num_classes_of kwargs) g of
        Inl e \<Rightarrow> (Inl e, [])
      | Inr (model, g') \<Rightarrow>
          if pre then
            (case model_urls name of
               None \<Rightarrow> (Inl KeyError, [])
             | Some f \<Rightarrow>
                 (case torch_load th f of
                    Inl e \<Rightarrow> (Inl e, [Torch_load f])
                  | Inr sd \<Rightarrow> (load_state_dict th model sd, [Torch_load f, Load_state_dict sd])))
          else (Inr model, []))"

definition xresnet18 ::
  "'sd torch \<Rightarrow> bool \<Rightarrow> int option \<Rightarrow> rng \<Rightarrow> (error + module) \<times> 'sd event list" where
  "xresnet18 th pretrained kwargs g =
     xresnet th BasicBlock_class [2, 2, 2, 2] ''xresnet18'' pretrained kwargs g"

definition xresnet34 ::
  "'sd torch \<Rightarrow> bool \<Rightarrow> int option \<Rightarrow> rng \<Rightarrow> (error + module) \<times> 'sd event list" where
  "xresnet34 th pretrained kwargs g =
     xresnet th BasicBlock_class [3, 4, 6, 3] ''xresnet34'' pretrained kwargs g"

definition xresnet50 ::
  "'sd torch \<Rightarrow> bool \<Rightarrow> int option \<Rightarrow> rng \<Rightarrow> (error + module) \<times> 'sd event list" where
  "xresnet50 th pretrained kwargs g =
     xresnet th Bottleneck_class [3, 4, 6, 3] ''xresnet50'' pretrained kwargs g"

definition xresnet101 ::
  "'sd torch \<Rightarrow> bool \<Rightarrow> int option \<Rightarrow> rng \<Rightarrow> (error + module) \<times> 'sd event list" where
  "xresnet101 th pretrained kwargs g =
     xresnet th Bottleneck_class [3, 4, 23, 3] ''xresnet101'' pretrained kwargs g"

definition xresnet152 ::
  "'sd torch \<Rightarrow> bool \<Rightarrow> int option \<Rightarrow> rng \<Rightarrow> (error + module) \<times> 'sd event list" where
  "xresnet152 th pretrained kwargs g =
     xresnet th Bottleneck_class [3, 8, 36, 3] ''xresnet152'' pretrained kwargs g"

subsection \<open>The forward pass\<close>

text \<open>
  Tensors and the arithmetic of the primitive layers belong to the framework: the forward
  pass is written over any tensor type, with the primitive layers, the in-place addition
  and the flattening \<^verbatim>\<open>x.view(x.size(0), -1)\<close> as parameters. A \<^verbatim>\<open>Sequential\<close> applies
  its children in order. In the blocks the in-place \<^verbatim>\<open>ReLU\<close> and \<^verbatim>\<open>+=\<close> act on the fresh
  output of the layer before them, never on the block's input.
\<close>

record 't framework =
  apply_layer :: "module \<Rightarrow> 't \<Rightarrow> 't"
  add_inplace :: "'t \<Rightarrow> 't \<Rightarrow> 't"
  view_flat :: "'t \<Rightarrow> 't"

fun forward :: "'t framework \<Rightarrow> module \<Rightarrow> 't \<Rightarrow> 't" where
  "forward fw (Sequential ms) x = fold (forward fw) ms x"
| "forward fw (BasicBlock c1 c2 ds s) x =
     (let identity = (case ds of None \<Rightarrow> x | Some d \<Rightarrow> forward fw d x);
          x1 = forward fw c1 x;
          x2 = forward fw c2 x1
      in add_inplace fw x2 identity)"
| "forward fw (Bottleneck c1 c2 c3 ds s) x =
     (let identity = (case ds of None \<Rightarrow> x | Some d \<Rightarrow> forward fw d x);
          x1 = forward fw c1 x;
          x2 = forward fw c2 x1;
          x3 = forward fw c3 x2
      in add_inplace fw x3 identity)"
| "forward fw (XResNet n c1 c2 c3 mp l1 l2 l3 l4 ap f) x =
     (let x1 = forward fw c1 x;
          x2 = forward fw c2 x1;
          x3 = forward fw c3 x2;
          x4 = forward fw mp x3;
          x5 = forward fw l1 x4;
          x6 = forward fw l2 x5;
          x7 = forward fw l3 x6;
          x8 = forward fw l4 x7;
          x9 = forward fw ap x8;
          x10 = view_flat fw x9
      in forward fw f x10)"
| "forward fw (Conv2d i o' k s p w b) x = apply_layer fw (Conv2d i o' k s p w b) x"
| "forward fw (ReLU v) x = apply_layer fw (ReLU v) x"
| "forward fw (BatchNorm2d n w b) x = apply_layer fw (BatchNorm2d n w b) x"
| "forward fw (BatchNorm1d n w b) x = apply_layer fw (BatchNorm1d n w b) x"
| "forward fw (MaxPool2d k s p) x = apply_layer fw (MaxPool2d k s p) x"
| "forward fw (AvgPool2d k s) x = apply_layer fw (AvgPool2d k s) x"
| "forward fw (AdaptiveAvgPool2d k) x = apply_layer fw (AdaptiveAvgPool2d k) x"
| "forward fw (Linear i o' w b) x = apply_layer fw (Linear i o' w b) x"

subsection \<open>Architecture, names and channel counts\<close>

text \<open>The architecture of a module: the tree with every parameter tensor forgotten.\<close>

fun arch :: "module \<Rightarrow> module" where
  "arch (Conv2d i o' k s p w b) =
     Conv2d i o' k s p Framework_default (map_option (\<lambda>_. Framework_default) b)"
| "arch (BatchNorm2d n w b) = BatchNorm2d n Framework_default Framework_default"
| "arch (BatchNorm1d n w b) = BatchNorm1d n Framework_default Framework_default"
| "arch (Linear i o' w b) = Linear i o' Framework_default Framework_default"
| "arch (Sequential ms) = Sequential (map arch ms)"
| "arch (BasicBlock c1 c2 ds s) = BasicBlock (arch c1) (arch c2) (map_option arch ds) s"
| "arch (Bottleneck c1 c2 c3 ds s) =
     Bottleneck (arch c1) (arch c2) (arch c3) (map_option arch ds) s"
| "arch (XResNet n c1 c2 c3 mp l1 l2 l3 l4 ap f) =
     XResNet n (arch c1) (arch c2) (arch c3) (arch mp) (arch l1) (arch l2) (arch l3)
       (arch l4) (arch ap) (arch f)"
| "arch (ReLU v) = ReLU v"
| "arch (MaxPool2d k s p) = MaxPool2d k s p"
| "arch (AvgPool2d k s) = AvgPool2d k s"
| "arch (AdaptiveAvgPool2d k) = AdaptiveAvgPool2d k"

text \<open>
  \<^verbatim>\<open>named_modules()\<close>: every module of the tree in pre-order with its path from the
  root, an attribute name or an index into a \<^verbatim>\<open>Sequential\<close> at each step.
\<close>

datatype name = Attr string | Idx nat

definition prefixed :: "name \<Rightarrow> (name list \<times> module) list \<Rightarrow> (name list \<times> module) list" where
  "prefixed a xs = map (\<lambda>(p, m). (a # p, m)) xs"

fun named_modules :: "module \<Rightarrow> (name list \<times> module) list"
and named_children :: "nat \<Rightarrow> module list \<Rightarrow> (name list \<times> module) list" where
  "named_modules (Sequential ms) = ([], Sequential ms) # named_children 0 ms"
| "named_modules (BasicBlock c1 c2 ds s) =
     ([], BasicBlock c1 c2 ds s) #
     prefixed (Attr ''conv1'') (named_modules c1) @
     prefixed (Attr ''conv2'') (named_modules c2) @
     (case ds of None \<Rightarrow> [] | Some d \<Rightarrow> prefixed (Attr ''downsample'') (named_modules d))"
| "named_modules (Bottleneck c1 c2 c3 ds s) =
     ([], Bottleneck c1 c2 c3 ds s) #
     prefixed (Attr ''conv1'') (named_modules c1) @
     prefixed (Attr ''conv2'') (named_modules c2) @
     prefixed (Attr ''conv3'') (named_modules c3) @
     (case ds of None \<Rightarrow> [] | Some d \<Rightarrow> prefixed (Attr ''downsample'') (named_modules d))"
| "named_modules (XResNet n c1 c2 c3 mp l1 l2 l3 l4 ap f) =
     ([], XResNet n c1 c2 c3 mp l1 l2 l3 l4 ap f) #
     prefixed (Attr ''conv1'') (named_modules c1) @
     prefixed (Attr ''conv2'') (named_modules c2) @
     prefixed (Attr ''conv3'') (named_modules c3) @
     prefixed (Attr ''maxpool'') (named_modules mp) @
     prefixed (Attr ''layer1'') (named_modules l1) @
     prefixed (Attr ''layer2'') (named_modules l2) @
     prefixed (Attr ''layer3'') (named_modules l3) @
     prefixed (Attr ''layer4'') (named_modules l4) @
     prefixed (Attr ''avgpool'') (named_modules ap) @
     prefixed (Attr ''fc'') (named_modules f)"
| "named_modules (Conv2d i o' k s p w b) = [([], Conv2d i o' k s p w b)]"
| "named_modules (ReLU v) = [([], ReLU v)]"
| "named_modules (BatchNorm2d n w b) = [([], BatchNorm2d n w b)]"
| "named_modules (BatchNorm1d n w b) = [([], BatchNorm1d n w b)]"
| "named_modules (MaxPool2d k s p) = [([], MaxPool2d k s p)]"
| "named_modules (AvgPool2d k s) = [([], AvgPool2d k s)]"
| "named_modules (AdaptiveAvgPool2d k) = [([], AdaptiveAvgPool2d k)]"
| "named_modules (Linear i o' w b) = [([], Linear i o' w b)]"
| "named_children i [] = []"
| "named_children i (m # ms) =
     prefixed (Idx i) (named_modules m) @ named_children (Suc i) ms"

text \<open>
  The paths of \<^verbatim>\<open>m.conv2[0]\<close> for every \<^verbatim>\<open>BasicBlock\<close> \<^verbatim>\<open>m\<close> of the tree and of
  \<^verbatim>\<open>m.conv3[0]\<close> for every \<^verbatim>\<open>Bottleneck\<close> \<^verbatim>\<open>m\<close>.
\<close>

fun final_path_head :: "name list \<times> module \<Rightarrow> name list list" where
  "final_path_head (p, BasicBlock c1 c2 ds s) = [p @ [Attr ''conv2'', Idx 0]]"
| "final_path_head (p, Bottleneck c1 c2 c3 ds s) = [p @ [Attr ''conv3'', Idx 0]]"
| "final_path_head (p, m) = []"

definition zeroed_paths :: "module \<Rightarrow> name list list" where
  "zeroed_paths m = concat (map final_path_head (named_modules m))"

text \<open>
  The number of channels (the size of dimension 1) of a module's output for an input with
  \<^verbatim>\<open>c\<close> channels, or \<open>None\<close> when a layer receives a channel count other than the one
  it was constructed for, or when the two operands of a block's addition differ in it.
  An \<^verbatim>\<open>AdaptiveAvgPool2d(k)\<close> leaves a \<^verbatim>\<open>k\<close> by \<^verbatim>\<open>k\<close> map, which the flattening of
  \<^verbatim>\<open>XResNet.forward\<close> folds into dimension 1.
\<close>

fun channels :: "module \<Rightarrow> int \<Rightarrow> int option"
and channels_seq :: "module list \<Rightarrow> int \<Rightarrow> int option" where
  "channels (Conv2d i o' k s p w b) c = (if c = i then Some o' else None)"
| "channels (BatchNorm2d n w b) c = (if c = n then Some c else None)"
| "channels (BatchNorm1d n w b) c = (if c = n then Some c else None)"
| "channels (Linear i o' w b) c = (if c = i then Some o' else None)"
| "channels (ReLU v) c = Some c"
| "channels (MaxPool2d k s p) c = Some c"
| "channels (AvgPool2d k s) c = Some c"
| "channels (AdaptiveAvgPool2d k) c = Some c"
| "channels (Sequential ms) c = channels_seq ms c"
| "channels (BasicBlock c1 c2 ds s) c =
     (case (case ds of None \<Rightarrow> Some c | Some d \<Rightarrow> channels d c) of
        None \<Rightarrow> None
      | Some ci \<Rightarrow>
          (case Option.bind (channels c1 c) (channels c2) of
             None \<Rightarrow> None
           | Some co \<Rightarrow> if co = ci then Some co else None))"
| "channels (Bottleneck c1 c2 c3 ds s) c =
     (case (case ds of None \<Rightarrow> Some c | Some d \<Rightarrow> channels d c) of
        None \<Rightarrow> None
      | Some ci \<Rightarrow>
          (case Option.bind (Option.bind (channels c1 c) (channels c2)) (channels c3) of
             None \<Rightarrow> None
           | Some co \<Rightarrow> if co = ci then Some co else None))"
| "channels (XResNet n c1 c2 c3 mp l1 l2 l3 l4 ap f) c =
     Option.bind (channels c1 c) (\<lambda>x1.
     Option.bind (channels c2 x1) (\<lambda>x2.
     Option.bind (channels c3 x2) (\<lambda>x3.
     Option.bind (channels mp x3) (\<lambda>x4.
     Option.bind (channels l1 x4) (\<lambda>x5.
     Option.bind (channels l2 x5) (\<lambda>x6.
     Option.bind (channels l3 x6) (\<lambda>x7.
     Option.bind (channels l4 x7) (\<lambda>x8.
     Option.bind (channels ap x8) (\<lambda>x9.
       (case ap of AdaptiveAvgPool2d k \<Rightarrow> channels f (x9 * k * k) | _ \<Rightarrow> None))))))))))"
| "channels_seq [] c = Some c"
| "channels_seq (m # ms) c =
     (case channels m c of None \<Rightarrow> None | Some c' \<Rightarrow> channels_seq ms c')"

text \<open>
  The height of a module's output for an input of height \<^verbatim>\<open>h\<close> (the width goes the same
  way), by the framework's rule for a window of size \<^verbatim>\<open>k\<close>, stride \<^verbatim>\<open>s\<close> and padding
  \<^verbatim>\<open>p\<close> without dilation, rounding down: \<^verbatim>\<open>(h + 2*p - k) // s + 1\<close>. The result is
  \<open>None\<close> where the framework raises: a window that does not fit the padded input, a
  pooling padding above half the window, a \<^verbatim>\<open>BatchNorm1d\<close> on a feature map, or the two
  operands of a block's addition of different heights. For the network it is the height
  of the pooled map that \<^verbatim>\<open>forward\<close> flattens.
\<close>

definition window :: "int \<Rightarrow> int \<Rightarrow> int \<Rightarrow> int \<Rightarrow> int option" where
  "window h k s p =
     (if 0 < h \<and> 0 < k \<and> 0 < s \<and> 0 \<le> p \<and> k \<le> h + 2 * p
      then Some ((h + 2 * p - k) div s + 1) else None)"

fun extent :: "module \<Rightarrow> int \<Rightarrow> int option"
and extent_seq :: "module list \<Rightarrow> int \<Rightarrow> int option" where
  "extent (Conv2d i o' k s p w b) h = window h k s p"
| "extent (MaxPool2d k s p) h = (if 2 * p \<le> k then window h k s p else None)"
| "extent (AvgPool2d k s) h = window h k s 0"
| "extent (AdaptiveAvgPool2d k) h = Some k"
| "extent (ReLU v) h = Some h"
| "extent (BatchNorm2d n w b) h = Some h"
| "extent (BatchNorm1d n w b) h = None"
| "extent (Linear i o' w b) h = Some h"
| "extent (Sequential ms) h = extent_seq ms h"
| "extent (BasicBlock c1 c2 ds s) h =
     (case (case ds of None \<Rightarrow> Some h | Some d \<Rightarrow> extent d h) of
        None \<Rightarrow> None
      | Some hi \<Rightarrow>
          (case Option.bind (extent c1 h) (extent c2) of
             None \<Rightarrow> None
           | Some ho \<Rightarrow> if ho = hi then Some ho else None))"
| "extent (Bottleneck c1 c2 c3 ds s) h =
     (case (case ds of None \<Rightarrow> Some h | Some d \<Rightarrow> extent d h) of
        None \<Rightarrow> None
      | Some hi \<Rightarrow>
          (case Option.bind (Option.bind (extent c1 h) (extent c2)) (extent c3) of
             None \<Rightarrow> None
           | Some ho \<Rightarrow> if ho = hi then Some ho else None))"
| "extent (XResNet n c1 c2 c3 mp l1 l2 l3 l4 ap f) h =
     Option.bind (extent c1 h) (\<lambda>x1.
     Option.bind (extent c2 x1) (\<lambda>x2.
     Option.bind (extent c3 x2) (\<lambda>x3.
     Option.bind (extent mp x3) (\<lambda>x4.
     Option.bind (extent l1 x4) (\<lambda>x5.
     Option.bind (extent l2 x5) (\<lambda>x6.
     Option.bind (extent l3 x6) (\<lambda>x7.
     Option.bind (extent l4 x7) (\<lambda>x8. extent ap x8))))))))"
| "extent_seq [] h = Some h"
| "extent_seq (m # ms) h =
     (case extent m h of None \<Rightarrow> None | Some h' \<Rightarrow> extent_seq ms h')"

text \<open>The same layer over another number of features, for comparing layer sequences.\<close>

fun with_num_features :: "int \<Rightarrow> module \<Rightarrow> module" where
  "with_num_features n (BatchNorm2d n' w b) = BatchNorm2d n w b"
| "with_num_features n m = m"

text \<open>
  The same tree with every random draw forgotten: which initialiser wrote a tensor stays,
  the generator state it drew at goes.
\<close>

fun forget_draw :: "tensor_init \<Rightarrow> tensor_init" where
  "forget_draw (Kaiming_normal d) = Kaiming_normal 0"
| "forget_draw (Normal mu sd d) = Normal mu sd 0"
| "forget_draw Framework_default = Framework_default"
| "forget_draw (Constant c) = Constant c"

fun forget_draws :: "module \<Rightarrow> module" where
  "forget_draws (Conv2d i o' k s p w b) =
     Conv2d i o' k s p (forget_draw w) (map_option forget_draw b)"
| "forget_draws (BatchNorm2d n w b) = BatchNorm2d n (forget_draw w) (forget_draw b)"
| "forget_draws (BatchNorm1d n w b) = BatchNorm1d n (forget_draw w) (forget_draw b)"
| "forget_draws (Linear i o' w b) = Linear i o' (forget_draw w) (forget_draw b)"
| "forget_draws (Sequential ms) = Sequential (map forget_draws ms)"
| "forget_draws (BasicBlock c1 c2 ds s) =
     BasicBlock (forget_draws c1) (forget_draws c2) (map_option forget_draws ds) s"
| "forget_draws (Bottleneck c1 c2 c3 ds s) =
     Bottleneck (forget_draws c1) (forget_draws c2) (forget_draws c3)
       (map_option forget_draws ds) s"
| "forget_draws (XResNet n c1 c2 c3 mp l1 l2 l3 l4 ap f) =
     XResNet n (forget_draws c1) (forget_draws c2) (forget_draws c3) (forget_draws mp)
       (forget_draws l1) (forget_draws l2) (forget_draws l3) (forget_draws l4)
       (forget_draws ap) (forget_draws f)"
| "forget_draws (ReLU v) = ReLU v"
| "forget_draws (MaxPool2d k s p) = MaxPool2d k s p"
| "forget_draws (AvgPool2d k s) = AvgPool2d k s"
| "forget_draws (AdaptiveAvgPool2d k) = AdaptiveAvgPool2d k"

subsection \<open>Initialised trees\<close>

text \<open>
  A tree is initialised when every \<^verbatim>\<open>Conv2d\<close> weight was drawn by
  \<^verbatim>\<open>kaiming_normal_\<close> and its bias, when it has one, is the constant 0; every
  \<^verbatim>\<open>BatchNorm2d\<close> has bias 0 and weight 1, except the first layer of the last
  convolution path of a block (\<^verbatim>\<open>conv2\<close> of a \<^verbatim>\<open>BasicBlock\<close>, \<^verbatim>\<open>conv3\<close> of a
  \<^verbatim>\<open>Bottleneck\<close>), which is a \<^verbatim>\<open>BatchNorm2d\<close> of weight 0; and every \<^verbatim>\<open>Linear\<close>
  weight was drawn from the normal distribution of mean 0 and deviation 0.01. The flag
  tells whether the module stands at such a first position.
\<close>

fun is_kaiming :: "tensor_init \<Rightarrow> bool" where
  "is_kaiming (Kaiming_normal d) = True"
| "is_kaiming t = False"

fun is_normal_001 :: "tensor_init \<Rightarrow> bool" where
  "is_normal_001 (Normal mu sd d) = (mu = 0 \<and> sd = 1 / 100)"
| "is_normal_001 t = False"

fun inited :: "bool \<Rightarrow> module \<Rightarrow> bool" and inited_head :: "module \<Rightarrow> bool" where
  "inited z (Conv2d i o' k s p w b) =
     (\<not> z \<and> is_kaiming w \<and> (b = None \<or> b = Some (Constant 0)))"
| "inited z (BatchNorm2d n w b) = (w = Constant (if z then 0 else 1) \<and> b = Constant 0)"
| "inited z (Linear i o' w b) = (\<not> z \<and> is_normal_001 w)"
| "inited z (Sequential ms) = (\<not> z \<and> list_all (inited False) ms)"
| "inited z (BasicBlock c1 c2 ds s) =
     (\<not> z \<and> inited False c1 \<and> inited_head c2 \<and>
      (case ds of None \<Rightarrow> True | Some d \<Rightarrow> inited False d))"
| "inited z (Bottleneck c1 c2 c3 ds s) =
     (\<not> z \<and> inited False c1 \<and> inited False c2 \<and> inited_head c3 \<and>
      (case ds of None \<Rightarrow> True | Some d \<Rightarrow> inited False d))"
| "inited z (XResNet n c1 c2 c3 mp l1 l2 l3 l4 ap f) =
     (\<not> z \<and> inited False c1 \<and> inited False c2 \<and> inited False c3 \<and> inited False mp \<and>
      inited False l1 \<and> inited False l2 \<and> inited False l3 \<and> inited False l4 \<and>
      inited False ap \<and> inited False f)"
| "inited z (ReLU v) = (\<not> z)"
| "inited z (BatchNorm1d n w b) = (\<not> z)"
| "inited z (MaxPool2d k s p) = (\<not> z)"
| "inited z (AvgPool2d k s) = (\<not> z)"
| "inited z (AdaptiveAvgPool2d k) = (\<not> z)"
| "inited_head (Sequential (x # xs)) = (inited True x \<and> list_all (inited False) xs)"
| "inited_head m = False"

text \<open>
  A module settles when, whatever the generator states, \<^verbatim>\<open>init_cnn\<close> followed by the
  loop over \<^verbatim>\<open>modules()\<close> raises nothing and leaves an initialised tree.
\<close>

definition settles :: "module \<Rightarrow> bool" where
  "settles m \<longleftrightarrow>
     (\<forall>g g'. \<exists>m2 g2. modules_loop (fst (init_cnn m g)) g' = Inr (m2, g2) \<and> inited False m2)"

text \<open>
  What the initialisation leaves in the parameters of one layer; the flag tells whether
  the layer is the first of the last convolution path of a block.
\<close>

fun param_ok :: "bool \<Rightarrow> module \<Rightarrow> bool" where
  "param_ok z (Conv2d i o' k s p w b) =
     (is_kaiming w \<and> (b = None \<or> b = Some (Constant 0)))"
| "param_ok z (BatchNorm2d n w b) = (w = Constant (if z then 0 else 1) \<and> b = Constant 0)"
| "param_ok z (Linear i o' w b) = is_normal_001 w"
| "param_ok z m = True"

text \<open>
  Notions for the proofs: a named module one level deeper, the set of zeroed paths of a
  module and of a list of children numbered from an index, and the statement about the
  named modules of a tree, of a list of children, and of a last convolution path.
\<close>

definition nest :: "name \<Rightarrow> name list \<times> module \<Rightarrow> name list \<times> module" where
  "nest a = (\<lambda>(p, m). (a # p, m))"

definition zeroed :: "module \<Rightarrow> name list set" where
  "zeroed m = set (zeroed_paths m)"

definition zeroed_from :: "nat \<Rightarrow> module list \<Rightarrow> name list set" where
  "zeroed_from i ms = set (concat (map final_path_head (named_children i ms)))"

definition pathwise :: "bool \<Rightarrow> module \<Rightarrow> bool" where
  "pathwise z m \<longleftrightarrow>
     (\<forall>(p, c) \<in> set (named_modules m). param_ok (p \<in> zeroed m \<or> (z \<and> p = [])) c)
     \<and> (\<forall>p \<in> zeroed m. \<exists>n. (p, BatchNorm2d n (Constant 0) (Constant 0)) \<in> set (named_modules m))
     \<and> (z \<longrightarrow> (\<exists>n. m = BatchNorm2d n (Constant 0) (Constant 0)))"

definition pathwise_children :: "nat \<Rightarrow> module list \<Rightarrow> bool" where
  "pathwise_children i ms \<longleftrightarrow>
     (\<forall>(p, c) \<in> set (named_children i ms). param_ok (p \<in> zeroed_from i ms) c)
     \<and> (\<forall>p \<in> zeroed_from i ms. \<exists>n. (p, BatchNorm2d n (Constant 0) (Constant 0))
            \<in> set (named_children i ms))"

definition pathwise_head :: "module \<Rightarrow> bool" where
  "pathwise_head m \<longleftrightarrow>
     (\<forall>(p, c) \<in> set (named_modules m). param_ok (p = [Idx 0] \<or> p \<in> zeroed m) c)
     \<and> (\<forall>p \<in> insert [Idx 0] (zeroed m). \<exists>n. (p, BatchNorm2d n (Constant 0) (Constant 0))
            \<in> set (named_modules m))"

subsection \<open>Values used in the statements\<close>

text \<open>The arguments on which \<^verbatim>\<open>XResNet.__init__\<close> raises nothing.\<close>

definition constructible :: "int list \<Rightarrow> int \<Rightarrow> bool" where
  "constructible layers num_classes \<longleftrightarrow>
     4 \<le> length layers \<and> 0 \<le> num_classes \<and> num_classes < 2 ^ 63"

text \<open>
  The network that \<^verbatim>\<open>XResNet.__init__\<close> has assembled before it initialises any
  parameter, on such arguments.
\<close>

definition assembled :: "block \<Rightarrow> int list \<Rightarrow> int \<Rightarrow> module" where
  "assembled blk layers num_classes =
     XResNet (512 * expansion blk)
       (conv_bn_relu 3 32 3 2) (conv_bn_relu 32 32 3 1) (conv 32 64 3 1 False)
       (MaxPool2d 3 2 1)
       (fst (make_layer 64 blk 64 (layers ! 0) 1))
       (fst (make_layer (64 * expansion blk) blk 128 (layers ! 1) 2))
       (fst (make_layer (128 * expansion blk) blk 256 (layers ! 2) 2))
       (fst (make_layer (256 * expansion blk) blk 512 (layers ! 3) 2))
       (AdaptiveAvgPool2d 1)
       (Sequential [ReLU True,
          BatchNorm1d (512 * expansion blk) Framework_default Framework_default,
          Linear (512 * expansion blk) num_classes Framework_default Framework_default])"

text \<open>
  A framework for closed examples: every file loads, and loading a state dict leaves the
  model as it is.
\<close>

definition null_torch :: "unit torch" where
  "null_torch = \<lparr>torch_load = (\<lambda>f. Inr ()), load_state_dict = (\<lambda>m sd. Inr m)\<rparr>"

section \<open>Auxiliary facts\<close>

lemma bind_err_Inr: "bind_err r f = Inr y \<longleftrightarrow> (\<exists>v. r = Inr v \<and> f v = Inr y)"
  by (cases r) (simp_all add: bind_err_def)

lemma bind_err_simps [simp]:
  "bind_err (Inr v) f = f v" "bind_err (Inl e) f = Inl e"
  by (simp_all add: bind_err_def)

section \<open>Layer sequences\<close>

lemma conv_bn_relu_layers:
  "conv_bn_relu ni nf ks strd =
     Sequential [Conv2d ni nf ks strd (ks div 2) Framework_default None, ReLU True,
                 BatchNorm2d nf Framework_default Framework_default]"
  by (simp add: conv_bn_relu_def conv_relu_bn_def conv_def)

lemma bn_relu_conv_layers:
  "bn_relu_conv ni nf ks strd =
     Sequential [BatchNorm2d ni Framework_default Framework_default, ReLU True,
                 Conv2d ni nf ks strd (ks div 2) Framework_default None]"
  by (simp add: bn_relu_conv_def conv_relu_bn_def conv_def)

section \<open>The architecture survives initialisation\<close>

lemma arch_init_cnn_children:
  "(\<And>m g. m \<in> set ms \<Longrightarrow> arch (fst (init_cnn m g)) = arch m)
   \<Longrightarrow> map arch (fst (init_cnn_children ms g)) = map arch ms"
  by (induction ms arbitrary: g) (simp_all add: case_prod_beta)

lemma arch_init_cnn: "arch (fst (init_cnn m g)) = arch m"
proof (induction m arbitrary: g)
  case (Sequential ms)
  then show ?case by (simp add: case_prod_beta arch_init_cnn_children)
next
  case (BasicBlock c1 c2 ds s)
  then show ?case by (cases ds) (simp_all add: case_prod_beta)
next
  case (Bottleneck c1 c2 c3 ds s)
  then show ?case by (cases ds) (simp_all add: case_prod_beta)
next
  case (XResNet n c1 c2 c3 mp l1 l2 l3 l4 ap f)
  then show ?case by (simp add: case_prod_beta)
qed (simp_all split: option.splits)

lemma arch_set_weight: "set_weight t m = Inr m' \<Longrightarrow> arch m' = arch m"
  by (cases m) auto

lemma arch_zero_first: "zero_first m = Inr m' \<Longrightarrow> arch m' = arch m"
  by (induction m rule: zero_first.induct)
     (auto simp: bind_err_Inr dest: arch_set_weight)

lemma arch_modules_loop_children:
  "(\<And>m g m' g'. m \<in> set ms \<Longrightarrow> modules_loop m g = Inr (m', g') \<Longrightarrow> arch m' = arch m)
   \<Longrightarrow> modules_loop_children ms g = Inr (ms', g') \<Longrightarrow> map arch ms' = map arch ms"
proof (induction ms arbitrary: g ms' g')
  case Nil
  then show ?case by simp
next
  case (Cons a ms)
  from Cons.prems(2) obtain a' g1 ms1 where
    a: "modules_loop a g = Inr (a', g1)" and
    r: "modules_loop_children ms g1 = Inr (ms1, g')" and e: "ms' = a' # ms1"
    by (auto simp: bind_err_Inr)
  have "arch a' = arch a" using Cons.prems(1)[OF _ a] by simp
  moreover have "map arch ms1 = map arch ms"
    using Cons.IH[OF _ r] Cons.prems(1) by simp
  ultimately show ?case using e by simp
qed

lemma size_list_mem: "m \<in> set ms \<Longrightarrow> size m < Suc (size_list size ms)"
  by (induction ms) auto

lemma arch_modules_loop:
  "modules_loop m g = Inr (m', g') \<Longrightarrow> arch m' = arch m"
proof (induction "size m" arbitrary: m g m' g' rule: less_induct)
  case less
  note IH = less.hyps and run = less.prems
  show ?case
  proof (cases m)
    case (Sequential ms)
    with run obtain ms' where r: "modules_loop_children ms g = Inr (ms', g')"
      and e: "m' = Sequential ms'"
      by (auto simp: bind_err_Inr)
    have "map arch ms' = map arch ms"
    proof (rule arch_modules_loop_children[OF _ r])
      fix x h x' h' assume "x \<in> set ms" "modules_loop x h = Inr (x', h')"
      then show "arch x' = arch x"
        using IH[of x h x' h'] Sequential size_list_mem[of x ms] by simp
    qed
    then show ?thesis using e Sequential by simp
  next
    case (BasicBlock c1 c2 ds s)
    with run obtain c2z c1' g1 c2' g2 ds' where
      z: "zero_first c2 = Inr c2z" and
      r1: "modules_loop c1 g = Inr (c1', g1)" and
      r2: "modules_loop c2z g1 = Inr (c2', g2)" and
      r3: "(case ds of None \<Rightarrow> Inr (None, g2)
             | Some d \<Rightarrow> bind_err (modules_loop d g2) (\<lambda>(d', g'). Inr (Some d', g')))
           = Inr (ds', g')" and
      e: "m' = BasicBlock c1' c2' ds' s"
      by (auto simp: bind_err_Inr)
    have a1: "arch c1' = arch c1" using IH[OF _ r1] BasicBlock by simp
    have a2: "arch c2' = arch c2"
      using IH[OF _ r2] BasicBlock size_zero_first[OF z] arch_zero_first[OF z] by simp
    have a3: "map_option arch ds' = map_option arch ds"
    proof (cases ds)
      case None
      then show ?thesis using r3 by simp
    next
      case (Some d)
      with r3 obtain d' where "modules_loop d g2 = Inr (d', g')" "ds' = Some d'"
        by (auto simp: bind_err_Inr)
      then show ?thesis using IH[of d g2 d' g'] Some BasicBlock by simp
    qed
    show ?thesis using a1 a2 a3 e BasicBlock by simp
  next
    case (Bottleneck c1 c2 c3 ds s)
    with run obtain c3z c1' g1 c2' g2 c3' g3 ds' where
      z: "zero_first c3 = Inr c3z" and
      r1: "modules_loop c1 g = Inr (c1', g1)" and
      r2: "modules_loop c2 g1 = Inr (c2', g2)" and
      r3: "modules_loop c3z g2 = Inr (c3', g3)" and
      r4: "(case ds of None \<Rightarrow> Inr (None, g3)
             | Some d \<Rightarrow> bind_err (modules_loop d g3) (\<lambda>(d', g'). Inr (Some d', g')))
           = Inr (ds', g')" and
      e: "m' = Bottleneck c1' c2' c3' ds' s"
      by (auto simp: bind_err_Inr)
    have a1: "arch c1' = arch c1" using IH[OF _ r1] Bottleneck by simp
    have a2: "arch c2' = arch c2" using IH[OF _ r2] Bottleneck by simp
    have a3: "arch c3' = arch c3"
      using IH[OF _ r3] Bottleneck size_zero_first[OF z] arch_zero_first[OF z] by simp
    have a4: "map_option arch ds' = map_option arch ds"
    proof (cases ds)
      case None
      then show ?thesis using r4 by simp
    next
      case (Some d)
      with r4 obtain d' where "modules_loop d g3 = Inr (d', g')" "ds' = Some d'"
        by (auto simp: bind_err_Inr)
      then show ?thesis using IH[of d g3 d' g'] Some Bottleneck by simp
    qed
    show ?thesis using a1 a2 a3 a4 e Bottleneck by simp
  next
    case (XResNet n c1 c2 c3 mp l1 l2 l3 l4 ap f)
    with run obtain c1' g1 c2' g2 c3' g3 mp' g4 l1' g5 l2' g6 l3' g7 l4' g8 ap' g9 f' where
      r: "modules_loop c1 g = Inr (c1', g1)" "modules_loop c2 g1 = Inr (c2', g2)"
         "modules_loop c3 g2 = Inr (c3', g3)" "modules_loop mp g3 = Inr (mp', g4)"
         "modules_loop l1 g4 = Inr (l1', g5)" "modules_loop l2 g5 = Inr (l2', g6)"
         "modules_loop l3 g6 = Inr (l3', g7)" "modules_loop l4 g7 = Inr (l4', g8)"
         "modules_loop ap g8 = Inr (ap', g9)" "modules_loop f g9 = Inr (f', g')" and
      e: "m' = XResNet n c1' c2' c3' mp' l1' l2' l3' l4' ap' f'"
      by (auto simp: bind_err_Inr)
    have "arch c1' = arch c1" "arch c2' = arch c2" "arch c3' = arch c3" "arch mp' = arch mp"
      "arch l1' = arch l1" "arch l2' = arch l2" "arch l3' = arch l3" "arch l4' = arch l4"
      "arch ap' = arch ap" "arch f' = arch f"
      using IH[OF _ r(1)] IH[OF _ r(2)] IH[OF _ r(3)] IH[OF _ r(4)] IH[OF _ r(5)]
        IH[OF _ r(6)] IH[OF _ r(7)] IH[OF _ r(8)] IH[OF _ r(9)] IH[OF _ r(10)] XResNet
      by simp_all
    then show ?thesis using e XResNet by simp
  qed (use run in auto)
qed

section \<open>Initialisation succeeds\<close>

lemma settlesD:
  "settles m \<Longrightarrow> \<exists>m2 g2. modules_loop (fst (init_cnn m g)) g' = Inr (m2, g2) \<and> inited False m2"
  by (simp add: settles_def)

lemma settles_leaf [simp]:
  "settles (ReLU v)" "settles (MaxPool2d k s p)" "settles (AvgPool2d k s)"
  "settles (AdaptiveAvgPool2d k)" "settles (BatchNorm1d n w b)"
  "settles (BatchNorm2d n w b)" "settles (Linear i o' w b)"
  "settles (Conv2d i o' k s p w bo)"
  by (auto simp: settles_def split: option.splits)

lemma settles_children:
  "(\<And>m. m \<in> set ms \<Longrightarrow> settles m) \<Longrightarrow>
   \<exists>ms2 g2. modules_loop_children (fst (init_cnn_children ms g)) g' = Inr (ms2, g2)
            \<and> list_all (inited False) ms2"
proof (induction ms arbitrary: g g')
  case Nil
  then show ?case by simp
next
  case (Cons a ms)
  have "settles a" using Cons.prems by simp
  from settlesD[OF this, where g = g and g' = g']
  obtain a2 g2 where a: "modules_loop (fst (init_cnn a g)) g' = Inr (a2, g2)" "inited False a2"
    by auto
  obtain ms2 g3 where r:
    "modules_loop_children (fst (init_cnn_children ms (snd (init_cnn a g)))) g2 = Inr (ms2, g3)"
    "list_all (inited False) ms2"
    using Cons.IH[of "snd (init_cnn a g)" g2] Cons.prems by auto
  show ?case using a r by (simp add: case_prod_beta)
qed

lemma settles_Sequential: "(\<And>m. m \<in> set ms \<Longrightarrow> settles m) \<Longrightarrow> settles (Sequential ms)"
  unfolding settles_def
proof (intro allI)
  fix g g'
  assume "\<And>m. m \<in> set ms \<Longrightarrow> \<forall>g g'. \<exists>m2 g2. modules_loop (fst (init_cnn m g)) g' = Inr (m2, g2) \<and> inited False m2"
  then have "\<And>m. m \<in> set ms \<Longrightarrow> settles m" by (simp add: settles_def)
  from settles_children[OF this, where ms = ms and g = g and g' = g']
  obtain ms2 g2 where "modules_loop_children (fst (init_cnn_children ms g)) g' = Inr (ms2, g2)"
    "list_all (inited False) ms2" by auto
  then show "\<exists>m2 g2. modules_loop (fst (init_cnn (Sequential ms) g)) g' = Inr (m2, g2) \<and> inited False m2"
    by (simp add: case_prod_beta)
qed

lemma settles_conv_bn_relu: "settles (conv_bn_relu ni nf ks strd)"
  by (auto simp: conv_bn_relu_layers intro!: settles_Sequential)

lemma settles_downsample: "make_downsample c blk nf strd = Some d \<Longrightarrow> settles d"
  by (auto simp: make_downsample_def conv_def split: if_splits intro!: settles_Sequential)

lemma init_cnn_bn_relu_conv:
  "init_cnn (bn_relu_conv ni nf ks strd) g =
     (Sequential [BatchNorm2d ni (Constant 1) (Constant 0), ReLU True,
                  Conv2d ni nf ks strd (ks div 2) (Kaiming_normal g) None], Suc g)"
  by (simp add: bn_relu_conv_layers)

lemma settles_option:
  "\<forall>d. ds = Some d \<longrightarrow> settles d \<Longrightarrow>
   \<exists>ds2 g2. (case map_option (\<lambda>d. fst (init_cnn d g)) ds of None \<Rightarrow> Inr (None, g')
     | Some d \<Rightarrow> bind_err (modules_loop d g') (\<lambda>(d', g'). Inr (Some d', g'))) = Inr (ds2, g2)
     \<and> (case ds2 of None \<Rightarrow> True | Some d \<Rightarrow> inited False d)"
proof (cases ds)
  case None
  then show ?thesis by simp
next
  case (Some d)
  assume "\<forall>d. ds = Some d \<longrightarrow> settles d"
  then have "settles d" using Some by simp
  from settlesD[OF this, where g = g and g' = g'] show ?thesis using Some by auto
qed

lemma init_cnn_option:
  "fst (case ds of None \<Rightarrow> (None, g) | Some d \<Rightarrow> (let (d', g') = init_cnn d g in (Some d', g')))
   = map_option (\<lambda>d. fst (init_cnn d g)) ds"
  by (cases ds) (simp_all add: case_prod_beta)

lemma settles_BasicBlock:
  assumes "\<forall>d. ds = Some d \<longrightarrow> settles d"
  shows "settles (BasicBlock_init a nf strd ds)"
  unfolding settles_def
proof (intro allI)
  fix g g'
  obtain ds2 g2 where
    "(case map_option (\<lambda>d. fst (init_cnn d (Suc (Suc g)))) ds of None \<Rightarrow> Inr (None, g')
     | Some d \<Rightarrow> bind_err (modules_loop d g') (\<lambda>(d', g'). Inr (Some d', g'))) = Inr (ds2, g2)"
    "(case ds2 of None \<Rightarrow> True | Some d \<Rightarrow> inited False d)"
    using settles_option[OF assms, where g = "Suc (Suc g)" and g' = g'] by auto
  then show "\<exists>m2 g2. modules_loop (fst (init_cnn (BasicBlock_init a nf strd ds) g)) g' = Inr (m2, g2)
       \<and> inited False m2"
    by (simp add: BasicBlock_init_def init_cnn_bn_relu_conv case_prod_beta init_cnn_option)
qed

lemma settles_Bottleneck:
  assumes "\<forall>d. ds = Some d \<longrightarrow> settles d"
  shows "settles (Bottleneck_init a nf strd ds)"
  unfolding settles_def
proof (intro allI)
  fix g g'
  obtain ds2 g2 where
    "(case map_option (\<lambda>d. fst (init_cnn d (Suc (Suc (Suc g))))) ds of None \<Rightarrow> Inr (None, g')
     | Some d \<Rightarrow> bind_err (modules_loop d g') (\<lambda>(d', g'). Inr (Some d', g'))) = Inr (ds2, g2)"
    "(case ds2 of None \<Rightarrow> True | Some d \<Rightarrow> inited False d)"
    using settles_option[OF assms, where g = "Suc (Suc (Suc g))" and g' = g'] by auto
  then show "\<exists>m2 g2. modules_loop (fst (init_cnn (Bottleneck_init a nf strd ds) g)) g' = Inr (m2, g2)
       \<and> inited False m2"
    by (simp add: Bottleneck_init_def init_cnn_bn_relu_conv case_prod_beta init_cnn_option)
qed

lemma settles_new_block:
  "\<forall>d. ds = Some d \<longrightarrow> settles d \<Longrightarrow> settles (new_block blk a nf strd ds)"
  by (cases blk) (simp_all add: settles_BasicBlock settles_Bottleneck)

lemma settles_make_layer: "settles (fst (make_layer c blk nf blocks strd))"
  by (auto simp: make_layer_def Let_def intro!: settles_Sequential settles_new_block
           dest: settles_downsample)

lemma settles_XResNet:
  assumes s: "settles c1" "settles c2" "settles c3" "settles mp" "settles l1" "settles l2"
    "settles l3" "settles l4" "settles ap" "settles f"
  shows "settles (XResNet n c1 c2 c3 mp l1 l2 l3 l4 ap f)"
  unfolding settles_def
proof (intro allI)
  fix g g'
  define h1 where "h1 = snd (init_cnn c1 g)"
  define h2 where "h2 = snd (init_cnn c2 h1)"
  define h3 where "h3 = snd (init_cnn c3 h2)"
  define h4 where "h4 = snd (init_cnn mp h3)"
  define h5 where "h5 = snd (init_cnn l1 h4)"
  define h6 where "h6 = snd (init_cnn l2 h5)"
  define h7 where "h7 = snd (init_cnn l3 h6)"
  define h8 where "h8 = snd (init_cnn l4 h7)"
  define h9 where "h9 = snd (init_cnn ap h8)"
  note h = h1_def h2_def h3_def h4_def h5_def h6_def h7_def h8_def h9_def
  have i: "fst (init_cnn (XResNet n c1 c2 c3 mp l1 l2 l3 l4 ap f) g) =
    XResNet n (fst (init_cnn c1 g)) (fst (init_cnn c2 h1)) (fst (init_cnn c3 h2))
      (fst (init_cnn mp h3)) (fst (init_cnn l1 h4)) (fst (init_cnn l2 h5))
      (fst (init_cnn l3 h6)) (fst (init_cnn l4 h7)) (fst (init_cnn ap h8))
      (fst (init_cnn f h9))"
    by (simp add: case_prod_beta h)
  obtain a1 k1 where r1: "modules_loop (fst (init_cnn c1 g)) g' = Inr (a1, k1)" "inited False a1"
    using settlesD[OF s(1), where g = g and g' = g'] by auto
  obtain a2 k2 where r2: "modules_loop (fst (init_cnn c2 h1)) k1 = Inr (a2, k2)" "inited False a2"
    using settlesD[OF s(2), where g = h1 and g' = k1] by auto
  obtain a3 k3 where r3: "modules_loop (fst (init_cnn c3 h2)) k2 = Inr (a3, k3)" "inited False a3"
    using settlesD[OF s(3), where g = h2 and g' = k2] by auto
  obtain a4 k4 where r4: "modules_loop (fst (init_cnn mp h3)) k3 = Inr (a4, k4)" "inited False a4"
    using settlesD[OF s(4), where g = h3 and g' = k3] by auto
  obtain a5 k5 where r5: "modules_loop (fst (init_cnn l1 h4)) k4 = Inr (a5, k5)" "inited False a5"
    using settlesD[OF s(5), where g = h4 and g' = k4] by auto
  obtain a6 k6 where r6: "modules_loop (fst (init_cnn l2 h5)) k5 = Inr (a6, k6)" "inited False a6"
    using settlesD[OF s(6), where g = h5 and g' = k5] by auto
  obtain a7 k7 where r7: "modules_loop (fst (init_cnn l3 h6)) k6 = Inr (a7, k7)" "inited False a7"
    using settlesD[OF s(7), where g = h6 and g' = k6] by auto
  obtain a8 k8 where r8: "modules_loop (fst (init_cnn l4 h7)) k7 = Inr (a8, k8)" "inited False a8"
    using settlesD[OF s(8), where g = h7 and g' = k7] by auto
  obtain a9 k9 where r9: "modules_loop (fst (init_cnn ap h8)) k8 = Inr (a9, k9)" "inited False a9"
    using settlesD[OF s(9), where g = h8 and g' = k8] by auto
  obtain a10 k10 where r10: "modules_loop (fst (init_cnn f h9)) k9 = Inr (a10, k10)" "inited False a10"
    using settlesD[OF s(10), where g = h9 and g' = k9] by auto
  show "\<exists>m2 g2. modules_loop (fst (init_cnn (XResNet n c1 c2 c3 mp l1 l2 l3 l4 ap f) g)) g'
      = Inr (m2, g2) \<and> inited False m2"
    unfolding i using r1 r2 r3 r4 r5 r6 r7 r8 r9 r10 by simp
qed

lemma getitem_simps:
  "i < length xs \<Longrightarrow> getitem xs i = Inr (xs ! i)"
  "length xs \<le> i \<Longrightarrow> getitem xs i = Inl IndexError"
  by (simp_all add: getitem_def)

lemma snd_make_layer: "snd (make_layer c blk nf blocks strd) = nf * expansion blk"
  by (simp add: make_layer_def Let_def)

lemma XResNet_assemble_ok:
  "constructible layers num_classes \<Longrightarrow>
   XResNet_assemble blk layers num_classes =
     Inr (XResNet (512 * expansion blk)
            (conv_bn_relu 3 32 3 2) (conv_bn_relu 32 32 3 1) (conv 32 64 3 1 False)
            (MaxPool2d 3 2 1)
            (fst (make_layer 64 blk 64 (layers ! 0) 1))
            (fst (make_layer (64 * expansion blk) blk 128 (layers ! 1) 2))
            (fst (make_layer (128 * expansion blk) blk 256 (layers ! 2) 2))
            (fst (make_layer (256 * expansion blk) blk 512 (layers ! 3) 2))
            (AdaptiveAvgPool2d 1)
            (Sequential [ReLU True,
               BatchNorm1d (512 * expansion blk) Framework_default Framework_default,
               Linear (512 * expansion blk) num_classes Framework_default Framework_default]))"
  by (auto simp: XResNet_assemble_def getitem_def case_prod_beta snd_make_layer Let_def
        constructible_def Linear_init_def)

lemma XResNet_assemble_short:
  "length layers < 4 \<Longrightarrow> XResNet_assemble blk layers num_classes = Inl IndexError"
  by (auto simp: XResNet_assemble_def getitem_def case_prod_beta Let_def)

lemma XResNet_assemble_refused:
  "4 \<le> length layers \<Longrightarrow> num_classes < 0 \<Longrightarrow>
     XResNet_assemble blk layers num_classes = Inl RuntimeError"
  "4 \<le> length layers \<Longrightarrow> 2 ^ 63 \<le> num_classes \<Longrightarrow>
     XResNet_assemble blk layers num_classes = Inl TypeError"
  by (auto simp: XResNet_assemble_def getitem_def case_prod_beta Let_def Linear_init_def)

lemma XResNet_init_ok:
  assumes "constructible layers num_classes"
  shows "\<exists>m g'. XResNet_init blk layers num_classes g = Inr (m, g') \<and> inited False m"
proof -
  have "settles (Sequential [ReLU True,
               BatchNorm1d (512 * expansion blk) Framework_default Framework_default,
               Linear (512 * expansion blk) num_classes Framework_default Framework_default])"
    by (auto intro!: settles_Sequential)
  then have "settles (XResNet (512 * expansion blk)
            (conv_bn_relu 3 32 3 2) (conv_bn_relu 32 32 3 1) (conv 32 64 3 1 False)
            (MaxPool2d 3 2 1)
            (fst (make_layer 64 blk 64 (layers ! 0) 1))
            (fst (make_layer (64 * expansion blk) blk 128 (layers ! 1) 2))
            (fst (make_layer (128 * expansion blk) blk 256 (layers ! 2) 2))
            (fst (make_layer (256 * expansion blk) blk 512 (layers ! 3) 2))
            (AdaptiveAvgPool2d 1)
            (Sequential [ReLU True,
               BatchNorm1d (512 * expansion blk) Framework_default Framework_default,
               Linear (512 * expansion blk) num_classes Framework_default Framework_default]))"
    by (intro settles_XResNet settles_conv_bn_relu settles_make_layer)
       (simp_all add: conv_def)
  from settlesD[OF this] show ?thesis
    by (simp add: XResNet_init_def XResNet_assemble_ok[OF assms] case_prod_beta)
qed

lemma XResNet_init_short:
  "length layers < 4 \<Longrightarrow> XResNet_init blk layers num_classes g = Inl IndexError"
  by (simp add: XResNet_init_def XResNet_assemble_short)

lemma XResNet_init_refused:
  "\<not> constructible layers num_classes \<Longrightarrow>
   \<exists>e. \<forall>g. XResNet_init blk layers num_classes g = Inl e"
proof -
  assume n: "\<not> constructible layers num_classes"
  consider "length layers < 4" | "4 \<le> length layers" "num_classes < 0"
    | "4 \<le> length layers" "2 ^ 63 \<le> num_classes"
    using n by (cases "length layers < 4") (auto simp: constructible_def)
  then show ?thesis
    by cases (auto simp: XResNet_init_def XResNet_assemble_short XResNet_assemble_refused)
qed

section \<open>Claims about the layer constructors and the stages\<close>

text \<open>
  Claim C9. For all \<^verbatim>\<open>ni\<close>, \<^verbatim>\<open>nf\<close>, \<^verbatim>\<open>ks\<close> and \<^verbatim>\<open>stride\<close>, \<^verbatim>\<open>bn_relu_conv\<close> yields
  \<^verbatim>\<open>[BatchNorm2d(ni), ReLU, Conv2d(ni->nf)]\<close> and \<^verbatim>\<open>conv_bn_relu\<close> yields
  \<^verbatim>\<open>[Conv2d(ni->nf), ReLU, BatchNorm2d(nf)]\<close>: the first sequence is the reversal of the
  second, except that its batch normalisation is over \<^verbatim>\<open>ni\<close> channels instead of
  \<^verbatim>\<open>nf\<close>.
\<close>

theorem bn_relu_conv_is_reversed_conv_bn_relu:
  "layers_of (bn_relu_conv ni nf ks strd) =
     [BatchNorm2d ni Framework_default Framework_default, ReLU True,
      Conv2d ni nf ks strd (ks div 2) Framework_default None]
   \<and> layers_of (conv_bn_relu ni nf ks strd) =
     [Conv2d ni nf ks strd (ks div 2) Framework_default None, ReLU True,
      BatchNorm2d nf Framework_default Framework_default]
   \<and> layers_of (bn_relu_conv ni nf ks strd) =
     rev (map (with_num_features ni) (layers_of (conv_bn_relu ni nf ks strd)))"
  by (simp add: bn_relu_conv_layers conv_bn_relu_layers)

lemma downsample_new_block [simp]: "downsample (new_block blk c nf strd ds) = ds"
  by (cases blk) (simp_all add: BasicBlock_init_def Bottleneck_init_def)

text \<open>
  Claim C3. In \<^verbatim>\<open>_make_layer\<close> the first block receives a downsample branch exactly
  when \<^verbatim>\<open>stride != 1\<close> or \<^verbatim>\<open>self.ni\<close> differs from \<^verbatim>\<open>nf*block.expansion\<close>; the branch
  is a \<^verbatim>\<open>Sequential\<close> of an \<^verbatim>\<open>AvgPool2d(kernel_size=2, stride=2)\<close> exactly when the
  stride is 2, then a 1x1 convolution from \<^verbatim>\<open>self.ni\<close> to \<^verbatim>\<open>nf*block.expansion\<close>
  channels, then a \<^verbatim>\<open>BatchNorm2d\<close> over \<^verbatim>\<open>nf*block.expansion\<close> channels.
\<close>

theorem make_layer_downsample:
  "downsample (hd (layers_of (fst (make_layer cur blk nf blocks strd)))) =
     (if strd \<noteq> 1 \<or> cur \<noteq> nf * expansion blk
      then Some (Sequential
             ((if strd = 2 then [AvgPool2d 2 2] else []) @
              [Conv2d cur (nf * expansion blk) 1 1 0 Framework_default None,
               BatchNorm2d (nf * expansion blk) Framework_default Framework_default]))
      else None)"
  by (simp add: make_layer_def Let_def make_downsample_def conv_def)

text \<open>A strided stage has the pooled branch; a stage that keeps stride and width has none.\<close>

theorem make_layer_downsample_witness:
  "downsample (hd (layers_of (fst (make_layer 64 BasicBlock_class 128 2 2)))) =
     Some (Sequential [AvgPool2d 2 2, Conv2d 64 128 1 1 0 Framework_default None,
                       BatchNorm2d 128 Framework_default Framework_default])
   \<and> downsample (hd (layers_of (fst (make_layer 64 BasicBlock_class 64 2 1)))) = None"
  using make_layer_downsample [of 64 BasicBlock_class 128 2 2]
        make_layer_downsample [of 64 BasicBlock_class 64 2 1]
  by simp

lemma map_const_upto: "map (\<lambda>i. c) [1..n] = replicate (nat n) c"
  by (simp add: map_replicate_const)

text \<open>
  Claim C2. For \<^verbatim>\<open>blocks >= 1\<close>, \<^verbatim>\<open>_make_layer\<close> returns a \<^verbatim>\<open>Sequential\<close> of exactly
  \<^verbatim>\<open>blocks\<close> blocks: the first built from \<^verbatim>\<open>self.ni\<close>, \<^verbatim>\<open>nf\<close>, the given stride and
  the downsample branch (or \<^verbatim>\<open>None\<close>), every later one from \<^verbatim>\<open>nf*block.expansion\<close>,
  \<^verbatim>\<open>nf\<close>, stride 1 and no downsample.
\<close>

theorem make_layer_blocks:
  "1 \<le> blocks \<Longrightarrow>
   fst (make_layer cur blk nf blocks strd) =
     Sequential (new_block blk cur nf strd (make_downsample cur blk nf strd) #
                 replicate (nat (blocks - 1)) (new_block blk (nf * expansion blk) nf 1 None))
   \<and> length (layers_of (fst (make_layer cur blk nf blocks strd))) = nat blocks"
  by (simp add: make_layer_def Let_def map_const_upto)

text \<open>The second stage of a network of bottlenecks with three blocks.\<close>

theorem make_layer_blocks_witness:
  "(1::int) \<le> 3 \<and>
   fst (make_layer 64 Bottleneck_class 128 3 2) =
     Sequential [new_block Bottleneck_class 64 128 2 (make_downsample 64 Bottleneck_class 128 2),
                 new_block Bottleneck_class 512 128 1 None,
                 new_block Bottleneck_class 512 128 1 None]
   \<and> length (layers_of (fst (make_layer 64 Bottleneck_class 128 3 2))) = 3"
  using make_layer_blocks [of 3 64 Bottleneck_class 128 2]
  by (simp add: numeral_eq_Suc)

text \<open>
  Claim C5. \<^verbatim>\<open>BasicBlock.forward\<close> returns \<^verbatim>\<open>conv2(conv1(x)) + identity\<close> and
  \<^verbatim>\<open>Bottleneck.forward\<close> returns \<^verbatim>\<open>conv3(conv2(conv1(x))) + identity\<close>, where
  \<^verbatim>\<open>identity\<close> is \<^verbatim>\<open>x\<close> when the block has no downsample and \<^verbatim>\<open>downsample(x)\<close>
  otherwise; each convolution path is built by \<^verbatim>\<open>bn_relu_conv\<close>, which applies batch
  normalisation, then the rectifier, then the convolution.
\<close>

theorem block_forward:
  "forward fw (BasicBlock c1 c2 ds s) x =
     add_inplace fw (forward fw c2 (forward fw c1 x))
       (case ds of None \<Rightarrow> x | Some d \<Rightarrow> forward fw d x)
   \<and> forward fw (Bottleneck c1 c2 c3 ds s) x =
     add_inplace fw (forward fw c3 (forward fw c2 (forward fw c1 x)))
       (case ds of None \<Rightarrow> x | Some d \<Rightarrow> forward fw d x)
   \<and> BasicBlock_init ni nf strd ds =
       BasicBlock (bn_relu_conv ni nf 3 strd) (bn_relu_conv nf nf 3 1) ds strd
   \<and> Bottleneck_init ni nf strd ds =
       Bottleneck (bn_relu_conv ni nf 1 1) (bn_relu_conv nf nf 3 strd)
         (bn_relu_conv nf (nf * 4) 1 1) ds strd
   \<and> forward fw (bn_relu_conv a b k t) x =
       apply_layer fw (Conv2d a b k t (k div 2) Framework_default None)
         (apply_layer fw (ReLU True)
           (apply_layer fw (BatchNorm2d a Framework_default Framework_default) x))"
  by (simp add: BasicBlock_init_def Bottleneck_init_def bn_relu_conv_layers Let_def)

section \<open>Claims about the network\<close>

lemma XResNet_init_arch:
  assumes "XResNet_init blk layers num_classes g = Inr (m, g')"
  shows "constructible layers num_classes \<and> arch m = arch (assembled blk layers num_classes)"
proof -
  have len: "constructible layers num_classes"
    using assms XResNet_init_refused[of layers num_classes blk]
    by (cases "constructible layers num_classes") auto
  from assms obtain m0 where
    a: "XResNet_assemble blk layers num_classes = Inr m0" and
    r: "modules_loop (fst (init_cnn m0 g)) (snd (init_cnn m0 g)) = Inr (m, g')"
    by (auto simp: XResNet_init_def bind_err_Inr case_prod_beta)
  have "m0 = assembled blk layers num_classes"
    using a XResNet_assemble_ok[OF len, of blk] by (simp add: assembled_def)
  then show ?thesis using len arch_modules_loop[OF r] arch_init_cnn[of m0 g] by simp
qed

lemma arch_XResNet_cases:
  "arch m = XResNet n a1 a2 a3 a4 a5 a6 a7 a8 a9 a10 \<Longrightarrow>
   m = XResNet n (conv1 m) (conv2 m) (conv3 m) (maxpool m) (layer1 m) (layer2 m) (layer3 m)
         (layer4 m) (avgpool m) (fc m)
   \<and> self_ni m = n \<and> arch (conv1 m) = a1 \<and> arch (conv2 m) = a2 \<and> arch (conv3 m) = a3 \<and> arch (maxpool m) = a4
   \<and> arch (layer1 m) = a5 \<and> arch (layer2 m) = a6 \<and> arch (layer3 m) = a7
   \<and> arch (layer4 m) = a8 \<and> arch (avgpool m) = a9 \<and> arch (fc m) = a10"
  by (cases m) auto

lemma arch_conv_bn_relu [simp]: "arch (conv_bn_relu a b k s) = conv_bn_relu a b k s"
  by (simp add: conv_bn_relu_layers)

lemma arch_conv [simp]: "arch (conv a b k s bias) = conv a b k s bias"
  by (simp add: conv_def)

lemma arch_MaxPool2d: "arch m = MaxPool2d k s p \<Longrightarrow> m = MaxPool2d k s p"
  by (cases m) auto


text \<open>
  Claim C1. For every input \<^verbatim>\<open>x\<close>, \<^verbatim>\<open>XResNet.forward\<close> is the composition, in this
  order, of \<^verbatim>\<open>conv1\<close>, \<^verbatim>\<open>conv2\<close>, \<^verbatim>\<open>conv3\<close>, \<^verbatim>\<open>maxpool\<close>, \<^verbatim>\<open>layer1\<close>,
  \<^verbatim>\<open>layer2\<close>, \<^verbatim>\<open>layer3\<close>, \<^verbatim>\<open>layer4\<close>, \<^verbatim>\<open>avgpool\<close>, the flattening and \<^verbatim>\<open>fc\<close>. In
  a network returned by the constructor the stem has the architecture of
  \<^verbatim>\<open>conv_bn_relu(3,32,stride=2)\<close>, \<^verbatim>\<open>conv_bn_relu(32,32)\<close> and \<^verbatim>\<open>conv(32,64)\<close>,
  followed by a 3x3 max-pool with stride 2 and padding 1.
\<close>

theorem XResNet_forward:
  "forward fw (XResNet n c1 c2 c3 mp l1 l2 l3 l4 ap f) x =
     forward fw f (view_flat fw (forward fw ap
       (forward fw l4 (forward fw l3 (forward fw l2 (forward fw l1
         (forward fw mp (forward fw c3 (forward fw c2 (forward fw c1 x))))))))))
   \<and> (XResNet_init blk layers num_classes g = Inr (m, g') \<longrightarrow>
        m = XResNet (self_ni m) (conv1 m) (conv2 m) (conv3 m) (maxpool m) (layer1 m)
              (layer2 m) (layer3 m) (layer4 m) (avgpool m) (fc m)
        \<and> arch (conv1 m) = conv_bn_relu 3 32 3 2
        \<and> arch (conv2 m) = conv_bn_relu 32 32 3 1
        \<and> arch (conv3 m) = conv 32 64 3 1 False
        \<and> maxpool m = MaxPool2d 3 2 1)"
proof (intro conjI impI)
  assume i: "XResNet_init blk layers num_classes g = Inr (m, g')"
  have a: "arch m = arch (assembled blk layers num_classes)"
    using XResNet_init_arch[OF i] by simp
  note c = arch_XResNet_cases[OF a[unfolded assembled_def arch.simps]]
  show "m = XResNet (self_ni m) (conv1 m) (conv2 m) (conv3 m) (maxpool m) (layer1 m)
              (layer2 m) (layer3 m) (layer4 m) (avgpool m) (fc m)"
    using c by (cases m) simp_all
  show "arch (conv1 m) = conv_bn_relu 3 32 3 2" "arch (conv2 m) = conv_bn_relu 32 32 3 1"
    "arch (conv3 m) = conv 32 64 3 1 False"
    using c by simp_all
  show "maxpool m = MaxPool2d 3 2 1"
    using c arch_MaxPool2d[of "maxpool m" 3 2 1] by simp
qed (simp add: Let_def)

text \<open>The constructor returns for one block per stage, and its stem is the stated one.\<close>

theorem XResNet_forward_witness:
  "\<exists>m g'. XResNet_init BasicBlock_class [1, 1, 1, 1] 10 0 = Inr (m, g')
     \<and> conv1 m = Sequential [Conv2d 3 32 3 2 1 (Kaiming_normal 0) None, ReLU True,
                             BatchNorm2d 32 (Constant 1) (Constant 0)]
     \<and> arch (conv1 m) = conv_bn_relu 3 32 3 2
     \<and> arch (conv2 m) = conv_bn_relu 32 32 3 1
     \<and> arch (conv3 m) = conv 32 64 3 1 False
     \<and> maxpool m = MaxPool2d 3 2 1"
proof -
  have e: "case XResNet_init BasicBlock_class [1, 1, 1, 1] 10 0 of
             Inl e \<Rightarrow> False
           | Inr (m, g') \<Rightarrow>
               conv1 m = Sequential [Conv2d 3 32 3 2 1 (Kaiming_normal 0) None, ReLU True,
                                     BatchNorm2d 32 (Constant 1) (Constant 0)]"
    by code_simp
  then obtain m g' where i: "XResNet_init BasicBlock_class [1, 1, 1, 1] 10 0 = Inr (m, g')"
    by (auto split: sum.splits)
  show ?thesis
    using e i XResNet_forward[where blk = BasicBlock_class and layers = "[1, 1, 1, 1]"
        and num_classes = 10 and g = 0 and m = m and g' = g', THEN conjunct2]
    by auto
qed

section \<open>Claims about the pretrained constructors\<close>

lemma xresnet_not_pre:
  "constructible n_layers (num_classes_of kw) \<Longrightarrow>
   \<exists>m. xresnet th blk n_layers name False kw g = (Inr m, [])"
  using XResNet_init_ok[where layers = n_layers and blk = blk
      and num_classes = "num_classes_of kw" and g = g]
  by (auto simp: xresnet_def)

lemma xresnet_missing_key:
  "constructible n_layers (num_classes_of kw) \<Longrightarrow> model_urls name = None \<Longrightarrow>
   xresnet th blk n_layers name True kw g = (Inl KeyError, [])"
  using XResNet_init_ok[where layers = n_layers and blk = blk
      and num_classes = "num_classes_of kw" and g = g]
  by (auto simp: xresnet_def)

text \<open>
  Claim C7. Called with no keyword argument beyond \<^verbatim>\<open>pretrained\<close>, \<^verbatim>\<open>xresnet18\<close>,
  \<^verbatim>\<open>xresnet101\<close> and \<^verbatim>\<open>xresnet152\<close> with \<^verbatim>\<open>pretrained=True\<close> raise \<^verbatim>\<open>KeyError\<close>
  before anything is loaded (the trace of framework calls is empty), whatever the
  framework and the state of the generator; with \<^verbatim>\<open>pretrained=False\<close> all five
  constructors return a model.
\<close>

theorem pretrained_KeyError:
  "xresnet18 th True None g = (Inl KeyError, [])
   \<and> xresnet101 th True None g = (Inl KeyError, [])
   \<and> xresnet152 th True None g = (Inl KeyError, [])
   \<and> (\<exists>m. xresnet18 th False None g = (Inr m, []))
   \<and> (\<exists>m. xresnet34 th False None g = (Inr m, []))
   \<and> (\<exists>m. xresnet50 th False None g = (Inr m, []))
   \<and> (\<exists>m. xresnet101 th False None g = (Inr m, []))
   \<and> (\<exists>m. xresnet152 th False None g = (Inr m, []))"
  by (simp add: xresnet18_def xresnet34_def xresnet50_def xresnet101_def xresnet152_def
        xresnet_not_pre xresnet_missing_key model_urls_def constructible_def
        num_classes_of_def)

text \<open>
  Claim C8, as stated: \<^verbatim>\<open>xresnet\<close> loads a state dict into the model if and only if
  \<^verbatim>\<open>pre\<close> is true. With \<^verbatim>\<open>pre\<close> true and the name \<^verbatim>\<open>'xresnet18'\<close> the call raises
  \<^verbatim>\<open>KeyError\<close> and neither \<^verbatim>\<open>torch.load\<close> nor \<^verbatim>\<open>load_state_dict\<close> is called.
\<close>

theorem xresnet_pre_without_load:
  "xresnet null_torch BasicBlock_class [2, 2, 2, 2] ''xresnet18'' True None 0
     = (Inl KeyError, [])
   \<and> Load_state_dict ()
       \<notin> set (snd (xresnet null_torch BasicBlock_class [2, 2, 2, 2] ''xresnet18'' True None 0))"
  by (simp add: xresnet_missing_key model_urls_def constructible_def num_classes_of_def)

text \<open>
  Claim C8, amended. \<^verbatim>\<open>xresnet\<close> always constructs \<^verbatim>\<open>XResNet(block, n_layers, **kwargs)\<close>
  first, and an exception of the constructor is the result. When \<^verbatim>\<open>pre\<close> is false it
  calls nothing of the framework and returns the freshly initialised model unchanged.
  When \<^verbatim>\<open>pre\<close> is true it looks \<^verbatim>\<open>name\<close> up in \<^verbatim>\<open>model_urls\<close>: a missing key raises
  \<^verbatim>\<open>KeyError\<close> with nothing loaded; otherwise \<^verbatim>\<open>torch.load\<close> is called on
  \<^verbatim>\<open>model_urls[name]\<close> and, when it returns, its result is passed to
  \<^verbatim>\<open>load_state_dict\<close> of the model. Something is loaded only if \<^verbatim>\<open>pre\<close> is true and
  \<^verbatim>\<open>name\<close> is a key of \<^verbatim>\<open>model_urls\<close>.
\<close>

theorem xresnet_loading:
  "(\<not> pre \<longrightarrow>
      xresnet th blk n_layers name pre kw g =
        (map_sum id fst (XResNet_init blk n_layers (num_classes_of kw) g), []))
   \<and> (XResNet_init blk n_layers (num_classes_of kw) g = Inl e \<longrightarrow>
        xresnet th blk n_layers name pre kw g = (Inl e, []))
   \<and> (pre \<and> XResNet_init blk n_layers (num_classes_of kw) g = Inr (model, g') \<longrightarrow>
        xresnet th blk n_layers name pre kw g =
          (case model_urls name of
             None \<Rightarrow> (Inl KeyError, [])
           | Some f \<Rightarrow>
               (case torch_load th f of
                  Inl e \<Rightarrow> (Inl e, [Torch_load f])
                | Inr sd \<Rightarrow>
                    (load_state_dict th model sd, [Torch_load f, Load_state_dict sd]))))
   \<and> (snd (xresnet th blk n_layers name pre kw g) \<noteq> [] \<longrightarrow>
        pre \<and> name \<in> dom model_urls)"
  by (auto simp: xresnet_def split: sum.splits option.splits)

text \<open>
  With the key \<^verbatim>\<open>'xresnet34'\<close>, loading happens exactly when \<^verbatim>\<open>pre\<close> is true; an
  exception of the constructor comes before any lookup.
\<close>

theorem xresnet_loading_witness:
  "\<exists>model. xresnet null_torch BasicBlock_class [3, 4, 6, 3] ''xresnet34'' True None 0 =
         (Inr model, [Torch_load ''xresnet34'', Load_state_dict ()])
     \<and> xresnet null_torch BasicBlock_class [3, 4, 6, 3] ''xresnet34'' False None 0 =
         (Inr model, [])
     \<and> xresnet null_torch Bottleneck_class [] ''xresnet50'' True None 0 = (Inl IndexError, [])"
proof -
  have e: "case XResNet_init BasicBlock_class [3, 4, 6, 3] (num_classes_of None) 0 of
             Inl e \<Rightarrow> False | Inr (m, g') \<Rightarrow> g' = 39"
    by code_simp
  then obtain model g' where
    i: "XResNet_init BasicBlock_class [3, 4, 6, 3] (num_classes_of None) 0 = Inr (model, g')"
    by (auto split: sum.splits)
  have s: "XResNet_init Bottleneck_class [] (num_classes_of None) 0 = Inl IndexError"
    by code_simp
  show ?thesis
    using i s
      xresnet_loading[of True null_torch BasicBlock_class "[3, 4, 6, 3]" "''xresnet34''" None 0
        _ model g']
      xresnet_loading[of False null_torch BasicBlock_class "[3, 4, 6, 3]" "''xresnet34''" None 0
        _ model g']
      xresnet_loading[of True null_torch Bottleneck_class "[]" "''xresnet50''" None 0
        IndexError]
    by (simp add: model_urls_def null_torch_def)
qed

section \<open>Claims about channel counts and heights\<close>

lemma channels_seq_arch:
  "(\<And>m. m \<in> set ms \<Longrightarrow> channels (arch m) = channels m)
   \<Longrightarrow> channels_seq (map arch ms) c = channels_seq ms c"
  by (induction ms arbitrary: c) (simp_all split: option.splits)

lemma channels_arch_fun: "channels (arch m) = channels m"
proof (induction m)
  case (Sequential ms)
  then show ?case by (intro ext) (simp add: channels_seq_arch)
next
  case (BasicBlock c1 c2 ds s)
  then show ?case by (intro ext) (cases ds; simp cong: option.case_cong)
next
  case (Bottleneck c1 c2 c3 ds s)
  then show ?case by (intro ext) (cases ds; simp cong: option.case_cong)
next
  case (XResNet n c1 c2 c3 mp l1 l2 l3 l4 ap f)
  then show ?case by (intro ext) (cases ap; simp cong: option.case_cong)
qed (rule ext, simp)+

lemma channels_arch: "channels (arch m) c = channels m c"
  by (simp add: channels_arch_fun)

lemma channels_bn_relu_conv [simp]:
  "channels (bn_relu_conv a b k s) c = (if c = a then Some b else None)"
  by (simp add: bn_relu_conv_layers)

lemma channels_conv_bn_relu [simp]:
  "channels (conv_bn_relu a b k s) c = (if c = a then Some b else None)"
  by (simp add: conv_bn_relu_layers)

lemma channels_downsample:
  "make_downsample cur blk nf strd = Some d \<Longrightarrow> channels d cur = Some (nf * expansion blk)"
  by (auto simp: make_downsample_def conv_def split: if_splits)

lemma make_downsample_None:
  "make_downsample cur blk nf strd = None \<Longrightarrow> cur = nf * expansion blk"
  by (auto simp: make_downsample_def split: if_splits)

lemma channels_first_block:
  "channels (new_block blk cur nf strd (make_downsample cur blk nf strd)) cur
     = Some (nf * expansion blk)"
proof (cases "make_downsample cur blk nf strd")
  case None
  then show ?thesis using make_downsample_None[OF None]
    by (cases blk) (simp_all add: BasicBlock_init_def Bottleneck_init_def)
next
  case (Some d)
  then show ?thesis using channels_downsample[OF Some]
    by (cases blk) (simp_all add: BasicBlock_init_def Bottleneck_init_def)
qed

lemma channels_later_block:
  "channels (new_block blk (nf * expansion blk) nf 1 None) (nf * expansion blk)
     = Some (nf * expansion blk)"
  by (cases blk) (simp_all add: BasicBlock_init_def Bottleneck_init_def)

lemma channels_seq_replicate:
  "channels b c = Some c \<Longrightarrow> channels_seq (replicate k b) c = Some c"
  by (induction k) simp_all

lemma channels_make_layer:
  "channels (fst (make_layer cur blk nf blocks strd)) cur = Some (nf * expansion blk)"
  by (simp add: make_layer_def Let_def map_const_upto channels_first_block
        channels_seq_replicate channels_later_block)

lemma channels_assembled:
  "channels (assembled blk layers num_classes) 3 = Some num_classes"
  by (simp add: assembled_def channels_make_layer conv_def)

text \<open>
  Channel counts. After every call of \<^verbatim>\<open>_make_layer(block, nf, blocks, stride)\<close> the
  attribute \<^verbatim>\<open>self.ni\<close> is \<^verbatim>\<open>nf*block.expansion\<close>. In every block that the call builds,
  the convolution path and the identity path both end with \<^verbatim>\<open>nf*block.expansion\<close>
  channels, so the two operands of the addition agree in their channel count: the first
  block for an input of \<^verbatim>\<open>self.ni\<close> channels, every later block for an input of
  \<^verbatim>\<open>nf*block.expansion\<close> channels. In a constructed network every stage receives the
  channel count that the stage before it produces, from the 3 channels of the input to
  the \<^verbatim>\<open>num_classes\<close> outputs.
\<close>

lemma channel_chaining:
  "snd (make_layer cur blk nf blocks strd) = nf * expansion blk
   \<and> channels (fst (make_layer cur blk nf blocks strd)) cur = Some (nf * expansion blk)
   \<and> channels (hd (layers_of (fst (make_layer cur blk nf blocks strd)))) cur
        = Some (nf * expansion blk)
   \<and> (\<forall>b \<in> set (tl (layers_of (fst (make_layer cur blk nf blocks strd)))).
         channels b (nf * expansion blk) = Some (nf * expansion blk))
   \<and> (XResNet_init blk layers num_classes g = Inr (m, g') \<longrightarrow>
        self_ni m = 512 * expansion blk
        \<and> Option.bind (Option.bind (Option.bind (channels (conv1 m) 3) (channels (conv2 m)))
             (channels (conv3 m))) (channels (maxpool m)) = Some 64
        \<and> channels (layer1 m) 64 = Some (64 * expansion blk)
        \<and> channels (layer2 m) (64 * expansion blk) = Some (128 * expansion blk)
        \<and> channels (layer3 m) (128 * expansion blk) = Some (256 * expansion blk)
        \<and> channels (layer4 m) (256 * expansion blk) = Some (512 * expansion blk)
        \<and> channels m 3 = Some num_classes)"
proof (intro conjI impI)
  show "snd (make_layer cur blk nf blocks strd) = nf * expansion blk"
    by (rule snd_make_layer)
  show "channels (fst (make_layer cur blk nf blocks strd)) cur = Some (nf * expansion blk)"
    by (rule channels_make_layer)
  show "channels (hd (layers_of (fst (make_layer cur blk nf blocks strd)))) cur
        = Some (nf * expansion blk)"
    by (simp add: make_layer_def Let_def channels_first_block)
  show "\<forall>b \<in> set (tl (layers_of (fst (make_layer cur blk nf blocks strd)))).
         channels b (nf * expansion blk) = Some (nf * expansion blk)"
    by (auto simp: make_layer_def Let_def channels_later_block)
next
  assume i: "XResNet_init blk layers num_classes g = Inr (m, g')"
  have a: "arch m = arch (assembled blk layers num_classes)"
    using XResNet_init_arch[OF i] by simp
  note c = arch_XResNet_cases[OF a[unfolded assembled_def arch.simps]]
  show "self_ni m = 512 * expansion blk" using c by simp
  have ch: "\<And>x y k. arch x = arch y \<Longrightarrow> channels x k = channels y k"
    by (metis channels_arch)
  have c1: "channels (conv1 m) 3 = Some 32" using c ch[of "conv1 m" "conv_bn_relu 3 32 3 2"] by simp
  have c2: "channels (conv2 m) 32 = Some 32" using c ch[of "conv2 m" "conv_bn_relu 32 32 3 1"] by simp
  have c3: "channels (conv3 m) 32 = Some 64"
    using c ch[of "conv3 m" "conv 32 64 3 1 False"] by (simp add: conv_def)
  have c4: "channels (maxpool m) 64 = Some 64"
    using c ch[of "maxpool m" "MaxPool2d 3 2 1"] by simp
  show "Option.bind (Option.bind (Option.bind (channels (conv1 m) 3) (channels (conv2 m)))
             (channels (conv3 m))) (channels (maxpool m)) = Some 64"
    by (simp add: c1 c2 c3 c4)
  show "channels (layer1 m) 64 = Some (64 * expansion blk)"
    using c ch[of "layer1 m" "fst (make_layer 64 blk 64 (layers ! 0) 1)"]
    by (simp add: channels_make_layer)
  show "channels (layer2 m) (64 * expansion blk) = Some (128 * expansion blk)"
    using c ch[of "layer2 m" "fst (make_layer (64 * expansion blk) blk 128 (layers ! 1) 2)"]
    by (simp add: channels_make_layer)
  show "channels (layer3 m) (128 * expansion blk) = Some (256 * expansion blk)"
    using c ch[of "layer3 m" "fst (make_layer (128 * expansion blk) blk 256 (layers ! 2) 2)"]
    by (simp add: channels_make_layer)
  show "channels (layer4 m) (256 * expansion blk) = Some (512 * expansion blk)"
    using c ch[of "layer4 m" "fst (make_layer (256 * expansion blk) blk 512 (layers ! 3) 2)"]
    by (simp add: channels_make_layer)
  show "channels m 3 = Some num_classes"
    using ch[OF a, of 3] by (simp add: channels_assembled)
qed

lemma extent_bn_relu_conv [simp]:
  "extent (bn_relu_conv a b k s) h = window h k s (k div 2)"
  by (simp add: bn_relu_conv_layers split: option.splits)

lemma window_3_2_1: "0 < h \<Longrightarrow> window h 3 2 1 = Some ((h - 1) div 2 + 1)"
  by (simp add: window_def)

lemma window_3_1_1: "0 < h \<Longrightarrow> window h 3 1 1 = Some h"
  by (simp add: window_def)

lemma window_1_1_0: "0 < h \<Longrightarrow> window h 1 1 0 = Some h"
  by (simp add: window_def)

lemma window_2_2_0: "window h 2 2 0 = (if 2 \<le> h then Some ((h - 2) div 2 + 1) else None)"
  by (auto simp: window_def)

lemma halves:
  fixes h :: int
  shows "even h \<Longrightarrow> 0 < h \<Longrightarrow>
      2 \<le> h \<and> (h - 1) div 2 + 1 = h div 2 \<and> (h - 2) div 2 + 1 = h div 2 \<and> 0 < h div 2"
    and "odd h \<Longrightarrow> (h - 1) div 2 + 1 \<noteq> (h - 2) div 2 + 1"
    and "0 < h \<Longrightarrow> 0 < (h - 1) div 2 + 1"
  by presburger+

lemma strided_block_extent:
  assumes "0 < h"
  shows "extent (new_block blk cur nf 2 (make_downsample cur blk nf 2)) h
     = (if even h then Some (h div 2) else None)"
proof (cases "even h")
  case True
  note e = halves(1)[OF True assms]
  show ?thesis using True assms e halves(3)[OF assms]
    by (cases blk)
       (simp_all add: BasicBlock_init_def Bottleneck_init_def make_downsample_def conv_def
          window_3_2_1 window_3_1_1 window_1_1_0 window_2_2_0)
next
  case False
  note o = halves(2)[OF False]
  show ?thesis using False assms o halves(3)[OF assms]
    by (cases blk)
       (simp_all add: BasicBlock_init_def Bottleneck_init_def make_downsample_def conv_def
          window_3_2_1 window_3_1_1 window_1_1_0 window_2_2_0)
qed

text \<open>
  Claim C6. After every call of \<^verbatim>\<open>_make_layer\<close> the attribute \<^verbatim>\<open>self.ni\<close> is
  \<^verbatim>\<open>nf*block.expansion\<close>, and the two operands of every residual addition agree in
  their channel count (lemma \<open>channel_chaining\<close>). They do not always agree in height
  and width, so the addition is not shape-compatible on every input: in \<^verbatim>\<open>xresnet18()\<close>
  a 224x224 image passes, while a 100x100 image reaches \<^verbatim>\<open>layer2\<close> as a 25x25 map,
  which the strided convolution path of the first block takes to 13x13 and the
  \<^verbatim>\<open>AvgPool2d(2, 2)\<close> of its downsample branch to 12x12. By lemma
  \<open>strided_block_extent\<close> the same happens at every odd height.
\<close>

theorem residual_addition_odd_size:
  "\<exists>m g'. XResNet_init BasicBlock_class [2, 2, 2, 2] 1000 0 = Inr (m, g')
     \<and> channels m 3 = Some 1000
     \<and> extent m 224 = Some 1
     \<and> extent_seq [conv1 m, conv2 m, conv3 m, maxpool m, layer1 m] 100 = Some 25
     \<and> Option.bind (extent (conv1 (hd (layers_of (layer2 m)))) 25)
          (extent (conv2 (hd (layers_of (layer2 m))))) = Some 13
     \<and> map_option (\<lambda>d. extent d 25) (downsample (hd (layers_of (layer2 m)))) = Some (Some 12)
     \<and> extent (hd (layers_of (layer2 m))) 25 = None
     \<and> extent m 100 = None"
proof -
  have e: "case XResNet_init BasicBlock_class [2, 2, 2, 2] 1000 0 of
             Inl e \<Rightarrow> False
           | Inr (m, g') \<Rightarrow>
               channels m 3 = Some 1000
             \<and> extent m 224 = Some 1
             \<and> extent_seq [conv1 m, conv2 m, conv3 m, maxpool m, layer1 m] 100 = Some 25
             \<and> Option.bind (extent (conv1 (hd (layers_of (layer2 m)))) 25)
                  (extent (conv2 (hd (layers_of (layer2 m))))) = Some 13
             \<and> map_option (\<lambda>d. extent d 25) (downsample (hd (layers_of (layer2 m))))
                  = Some (Some 12)
             \<and> extent (hd (layers_of (layer2 m))) 25 = None
             \<and> extent m 100 = None"
    by code_simp
  then show ?thesis by (auto split: sum.splits)
qed

section \<open>Claims about determinism\<close>

lemma fd_init_cnn_children:
  "(\<And>m g1 g2. m \<in> set ms \<Longrightarrow>
      forget_draws (fst (init_cnn m g1)) = forget_draws (fst (init_cnn m g2)))
   \<Longrightarrow> map forget_draws (fst (init_cnn_children ms g1))
       = map forget_draws (fst (init_cnn_children ms g2))"
  by (induction ms arbitrary: g1 g2) (simp_all add: case_prod_beta)

lemma fd_init_cnn:
  "forget_draws (fst (init_cnn m g1)) = forget_draws (fst (init_cnn m g2))"
proof (induction m arbitrary: g1 g2)
  case (Sequential ms)
  then show ?case by (simp add: case_prod_beta fd_init_cnn_children)
next
  case (BasicBlock c1 c2 ds s)
  then show ?case by (cases ds) (simp_all add: case_prod_beta)
next
  case (Bottleneck c1 c2 c3 ds s)
  then show ?case by (cases ds) (simp_all add: case_prod_beta)
next
  case (XResNet n c1 c2 c3 mp l1 l2 l3 l4 ap f)
  then show ?case by (simp add: case_prod_beta)
qed (simp_all split: option.splits)

lemma fd_set_weight:
  "forget_draws a = forget_draws b \<Longrightarrow> set_weight t a = Inr a' \<Longrightarrow> set_weight t b = Inr b'
   \<Longrightarrow> forget_draws a' = forget_draws b'"
  by (cases a; cases b) auto

lemma fd_Sequential:
  "forget_draws a = forget_draws b \<Longrightarrow> a = Sequential ms \<Longrightarrow>
   \<exists>ns. b = Sequential ns \<and> map forget_draws ms = map forget_draws ns"
  by (cases b) auto

lemma fd_zero_first:
  assumes "forget_draws a = forget_draws b" "zero_first a = Inr a'" "zero_first b = Inr b'"
  shows "forget_draws a' = forget_draws b'"
proof -
  from assms(2) obtain x xs x' where a: "a = Sequential (x # xs)"
    "set_weight (Constant 0) x = Inr x'" "a' = Sequential (x' # xs)"
    by (induction a rule: zero_first.induct) (auto simp: bind_err_Inr)
  from fd_Sequential[OF assms(1) a(1)] obtain ns where
    b: "b = Sequential ns" "map forget_draws (x # xs) = map forget_draws ns" by auto
  then obtain y ys where ns: "ns = y # ys" by (cases ns) auto
  from assms(3) b ns obtain y' where y: "set_weight (Constant 0) y = Inr y'"
    "b' = Sequential (y' # ys)" by (auto simp: bind_err_Inr)
  show ?thesis using a b ns y fd_set_weight[OF _ a(2) y(1)] by simp
qed

lemma fd_modules_loop_children:
  assumes "\<And>x y g1 g2 x' y' h1 h2. x \<in> set ms \<Longrightarrow> forget_draws x = forget_draws y \<Longrightarrow>
      modules_loop x g1 = Inr (x', h1) \<Longrightarrow> modules_loop y g2 = Inr (y', h2) \<Longrightarrow>
      forget_draws x' = forget_draws y'"
    and "map forget_draws ms = map forget_draws ns"
    and "modules_loop_children ms g1 = Inr (ms', h1)"
    and "modules_loop_children ns g2 = Inr (ns', h2)"
  shows "map forget_draws ms' = map forget_draws ns'"
  using assms
proof (induction ms arbitrary: ns g1 g2 ms' ns' h1 h2)
  case Nil
  then show ?case by auto
next
  case (Cons a ms)
  from Cons.prems(2) obtain b ns0 where ns: "ns = b # ns0" "forget_draws a = forget_draws b"
    "map forget_draws ms = map forget_draws ns0" by (cases ns) auto
  from Cons.prems(3) obtain a' k1 ms1 where
    ra: "modules_loop a g1 = Inr (a', k1)" "modules_loop_children ms k1 = Inr (ms1, h1)"
    "ms' = a' # ms1" by (auto simp: bind_err_Inr)
  from Cons.prems(4) ns obtain b' k2 ns1 where
    rb: "modules_loop b g2 = Inr (b', k2)" "modules_loop_children ns0 k2 = Inr (ns1, h2)"
    "ns' = b' # ns1" by (auto simp: bind_err_Inr)
  have "forget_draws a' = forget_draws b'"
    using Cons.prems(1)[OF _ ns(2) ra(1) rb(1)] by simp
  moreover have "map forget_draws ms1 = map forget_draws ns1"
  proof (rule Cons.IH[OF _ ns(3) ra(2) rb(2)])
    fix x y k1 k2 x' y' j1 j2
    assume "x \<in> set ms" "forget_draws x = forget_draws y"
      "modules_loop x k1 = Inr (x', j1)" "modules_loop y k2 = Inr (y', j2)"
    then show "forget_draws x' = forget_draws y'"
      using Cons.prems(1)[of x y k1 x' j1 k2 y' j2] by simp
  qed
  ultimately show ?case using ra rb by simp
qed

lemma fd_loop_option:
  assumes "\<And>x y g1 g2 x' y' h1 h2. ds = Some x \<Longrightarrow> forget_draws x = forget_draws y \<Longrightarrow>
      modules_loop x g1 = Inr (x', h1) \<Longrightarrow> modules_loop y g2 = Inr (y', h2) \<Longrightarrow>
      forget_draws x' = forget_draws y'"
    and "map_option forget_draws ds = map_option forget_draws es"
    and "(case ds of None \<Rightarrow> Inr (None, g1)
          | Some d \<Rightarrow> bind_err (modules_loop d g1) (\<lambda>(d', g'). Inr (Some d', g')))
         = Inr (ds', h1)"
    and "(case es of None \<Rightarrow> Inr (None, g2)
          | Some d \<Rightarrow> bind_err (modules_loop d g2) (\<lambda>(d', g'). Inr (Some d', g')))
         = Inr (es', h2)"
  shows "map_option forget_draws ds' = map_option forget_draws es'"
proof (cases ds)
  case None
  then show ?thesis using assms(2,3,4) by auto
next
  case (Some d)
  with assms(2) obtain e where e: "es = Some e" "forget_draws d = forget_draws e"
    by (cases es) auto
  from assms(3) Some obtain d' where d: "modules_loop d g1 = Inr (d', h1)" "ds' = Some d'"
    by (auto simp: bind_err_Inr)
  from assms(4) e obtain e' where e': "modules_loop e g2 = Inr (e', h2)" "es' = Some e'"
    by (auto simp: bind_err_Inr)
  show ?thesis using assms(1)[OF Some e(2) d(1) e'(1)] d e' by simp
qed

lemma fd_modules_loop:
  "forget_draws a = forget_draws b \<Longrightarrow> modules_loop a g1 = Inr (a', h1) \<Longrightarrow>
   modules_loop b g2 = Inr (b', h2) \<Longrightarrow> forget_draws a' = forget_draws b'"
proof (induction "size a" arbitrary: a b g1 g2 a' b' h1 h2 rule: less_induct)
  case less
  note IH = less.hyps and eq = less.prems(1) and ra = less.prems(2) and rb = less.prems(3)
  show ?case
  proof (cases a)
    case (Sequential ms)
    with eq obtain ns where b: "b = Sequential ns" "map forget_draws ms = map forget_draws ns"
      by (cases b) auto
    from ra Sequential obtain ms' where r1: "modules_loop_children ms g1 = Inr (ms', h1)"
      "a' = Sequential ms'" by (auto simp: bind_err_Inr)
    from rb b obtain ns' where r2: "modules_loop_children ns g2 = Inr (ns', h2)"
      "b' = Sequential ns'" by (auto simp: bind_err_Inr)
    have "map forget_draws ms' = map forget_draws ns'"
    proof (rule fd_modules_loop_children[OF _ b(2) r1(1) r2(1)])
      fix x y k1 k2 x' y' j1 j2
      assume "x \<in> set ms" "forget_draws x = forget_draws y"
        "modules_loop x k1 = Inr (x', j1)" "modules_loop y k2 = Inr (y', j2)"
      then show "forget_draws x' = forget_draws y'"
        using IH[of x y k1 x' j1 k2 y' j2] Sequential size_list_mem[of x ms] by simp
    qed
    then show ?thesis using r1 r2 by simp
  next
    case (BasicBlock c1 c2 ds s)
    with eq obtain d1 d2 es where b: "b = BasicBlock d1 d2 es s"
      "forget_draws c1 = forget_draws d1" "forget_draws c2 = forget_draws d2"
      "map_option forget_draws ds = map_option forget_draws es"
      by (cases b) auto
    from ra BasicBlock obtain c2z c1' k1 c2' k2 ds' where
      z1: "zero_first c2 = Inr c2z" and
      p1: "modules_loop c1 g1 = Inr (c1', k1)" and
      p2: "modules_loop c2z k1 = Inr (c2', k2)" and
      p3: "(case ds of None \<Rightarrow> Inr (None, k2)
             | Some d \<Rightarrow> bind_err (modules_loop d k2) (\<lambda>(d', g'). Inr (Some d', g')))
           = Inr (ds', h1)" and
      e1: "a' = BasicBlock c1' c2' ds' s"
      by (auto simp: bind_err_Inr)
    from rb b obtain d2z d1' j1 d2' j2 es' where
      z2: "zero_first d2 = Inr d2z" and
      q1: "modules_loop d1 g2 = Inr (d1', j1)" and
      q2: "modules_loop d2z j1 = Inr (d2', j2)" and
      q3: "(case es of None \<Rightarrow> Inr (None, j2)
             | Some d \<Rightarrow> bind_err (modules_loop d j2) (\<lambda>(d', g'). Inr (Some d', g')))
           = Inr (es', h2)" and
      e2: "b' = BasicBlock d1' d2' es' s"
      by (auto simp: bind_err_Inr)
    have a1: "forget_draws c1' = forget_draws d1'"
      using IH[OF _ b(2) p1 q1] BasicBlock by simp
    have a2: "forget_draws c2' = forget_draws d2'"
      using IH[OF _ fd_zero_first[OF b(3) z1 z2] p2 q2] BasicBlock size_zero_first[OF z1]
      by simp
    have a3: "map_option forget_draws ds' = map_option forget_draws es'"
    proof (rule fd_loop_option[OF _ b(4) p3 q3])
      fix x y k1 k2 x' y' j1 j2
      assume "ds = Some x" "forget_draws x = forget_draws y"
        "modules_loop x k1 = Inr (x', j1)" "modules_loop y k2 = Inr (y', j2)"
      then show "forget_draws x' = forget_draws y'"
        using IH[of x y k1 x' j1 k2 y' j2] BasicBlock by simp
    qed
    show ?thesis using a1 a2 a3 e1 e2 by simp
  next
    case (Bottleneck c1 c2 c3 ds s)
    with eq obtain d1 d2 d3 es where b: "b = Bottleneck d1 d2 d3 es s"
      "forget_draws c1 = forget_draws d1" "forget_draws c2 = forget_draws d2"
      "forget_draws c3 = forget_draws d3"
      "map_option forget_draws ds = map_option forget_draws es"
      by (cases b) auto
    from ra Bottleneck obtain c3z c1' k1 c2' k2 c3' k3 ds' where
      z1: "zero_first c3 = Inr c3z" and
      p1: "modules_loop c1 g1 = Inr (c1', k1)" and
      p2: "modules_loop c2 k1 = Inr (c2', k2)" and
      p3: "modules_loop c3z k2 = Inr (c3', k3)" and
      p4: "(case ds of None \<Rightarrow> Inr (None, k3)
             | Some d \<Rightarrow> bind_err (modules_loop d k3) (\<lambda>(d', g'). Inr (Some d', g')))
           = Inr (ds', h1)" and
      e1: "a' = Bottleneck c1' c2' c3' ds' s"
      by (auto simp: bind_err_Inr)
    from rb b obtain d3z d1' j1 d2' j2 d3' j3 es' where
      z2: "zero_first d3 = Inr d3z" and
      q1: "modules_loop d1 g2 = Inr (d1', j1)" and
      q2: "modules_loop d2 j1 = Inr (d2', j2)" and
      q3: "modules_loop d3z j2 = Inr (d3', j3)" and
      q4: "(case es of None \<Rightarrow> Inr (None, j3)
             | Some d \<Rightarrow> bind_err (modules_loop d j3) (\<lambda>(d', g'). Inr (Some d', g')))
           = Inr (es', h2)" and
      e2: "b' = Bottleneck d1' d2' d3' es' s"
      by (auto simp: bind_err_Inr)
    have a1: "forget_draws c1' = forget_draws d1'"
      using IH[OF _ b(2) p1 q1] Bottleneck by simp
    have a2: "forget_draws c2' = forget_draws d2'"
      using IH[OF _ b(3) p2 q2] Bottleneck by simp
    have a3: "forget_draws c3' = forget_draws d3'"
      using IH[OF _ fd_zero_first[OF b(4) z1 z2] p3 q3] Bottleneck size_zero_first[OF z1]
      by simp
    have a4: "map_option forget_draws ds' = map_option forget_draws es'"
    proof (rule fd_loop_option[OF _ b(5) p4 q4])
      fix x y k1 k2 x' y' j1 j2
      assume "ds = Some x" "forget_draws x = forget_draws y"
        "modules_loop x k1 = Inr (x', j1)" "modules_loop y k2 = Inr (y', j2)"
      then show "forget_draws x' = forget_draws y'"
        using IH[of x y k1 x' j1 k2 y' j2] Bottleneck by simp
    qed
    show ?thesis using a1 a2 a3 a4 e1 e2 by simp
  next
    case (XResNet n c1 c2 c3 mp l1 l2 l3 l4 ap f)
    with eq obtain d1 d2 d3 dp e1 e2 e3 e4 ep ef where b:
      "b = XResNet n d1 d2 d3 dp e1 e2 e3 e4 ep ef" and
      f: "forget_draws c1 = forget_draws d1" "forget_draws c2 = forget_draws d2"
      "forget_draws c3 = forget_draws d3" "forget_draws mp = forget_draws dp"
      "forget_draws l1 = forget_draws e1" "forget_draws l2 = forget_draws e2"
      "forget_draws l3 = forget_draws e3" "forget_draws l4 = forget_draws e4"
      "forget_draws ap = forget_draws ep" "forget_draws f = forget_draws ef"
      by (cases b) auto
    from ra XResNet obtain c1' k1 c2' k2 c3' k3 mp' k4 l1' k5 l2' k6 l3' k7 l4' k8 ap' k9 f'
      where p: "modules_loop c1 g1 = Inr (c1', k1)" "modules_loop c2 k1 = Inr (c2', k2)"
         "modules_loop c3 k2 = Inr (c3', k3)" "modules_loop mp k3 = Inr (mp', k4)"
         "modules_loop l1 k4 = Inr (l1', k5)" "modules_loop l2 k5 = Inr (l2', k6)"
         "modules_loop l3 k6 = Inr (l3', k7)" "modules_loop l4 k7 = Inr (l4', k8)"
         "modules_loop ap k8 = Inr (ap', k9)" "modules_loop f k9 = Inr (f', h1)" and
      ea: "a' = XResNet n c1' c2' c3' mp' l1' l2' l3' l4' ap' f'"
      by (auto simp: bind_err_Inr)
    from rb b obtain d1' j1 d2' j2 d3' j3 dp' j4 e1' j5 e2' j6 e3' j7 e4' j8 ep' j9 ef'
      where q: "modules_loop d1 g2 = Inr (d1', j1)" "modules_loop d2 j1 = Inr (d2', j2)"
         "modules_loop d3 j2 = Inr (d3', j3)" "modules_loop dp j3 = Inr (dp', j4)"
         "modules_loop e1 j4 = Inr (e1', j5)" "modules_loop e2 j5 = Inr (e2', j6)"
         "modules_loop e3 j6 = Inr (e3', j7)" "modules_loop e4 j7 = Inr (e4', j8)"
         "modules_loop ep j8 = Inr (ep', j9)" "modules_loop ef j9 = Inr (ef', h2)" and
      eb: "b' = XResNet n d1' d2' d3' dp' e1' e2' e3' e4' ep' ef'"
      by (auto simp: bind_err_Inr)
    have "forget_draws c1' = forget_draws d1'" "forget_draws c2' = forget_draws d2'"
      "forget_draws c3' = forget_draws d3'" "forget_draws mp' = forget_draws dp'"
      "forget_draws l1' = forget_draws e1'" "forget_draws l2' = forget_draws e2'"
      "forget_draws l3' = forget_draws e3'" "forget_draws l4' = forget_draws e4'"
      "forget_draws ap' = forget_draws ep'" "forget_draws f' = forget_draws ef'"
      using IH[OF _ f(1) p(1) q(1)] IH[OF _ f(2) p(2) q(2)] IH[OF _ f(3) p(3) q(3)]
        IH[OF _ f(4) p(4) q(4)] IH[OF _ f(5) p(5) q(5)] IH[OF _ f(6) p(6) q(6)]
        IH[OF _ f(7) p(7) q(7)] IH[OF _ f(8) p(8) q(8)] IH[OF _ f(9) p(9) q(9)]
        IH[OF _ f(10) p(10) q(10)] XResNet
      by simp_all
    then show ?thesis using ea eb by simp
  qed (use eq ra rb in \<open>cases b; auto\<close>)+
qed

lemma XResNet_init_runs:
  assumes "constructible layers num_classes"
  shows "\<exists>m h. XResNet_init blk layers num_classes g = Inr (m, h)
           \<and> modules_loop (fst (init_cnn (assembled blk layers num_classes) g))
                (snd (init_cnn (assembled blk layers num_classes) g)) = Inr (m, h)"
  using XResNet_init_ok[OF assms, of blk g] XResNet_assemble_ok[OF assms, of blk]
  by (auto simp: XResNet_init_def assembled_def case_prod_beta)

text \<open>
  Claim C10. For every block class, list of layer counts and \<^verbatim>\<open>num_classes\<close>, two runs
  of \<^verbatim>\<open>XResNet(block, layers, num_classes)\<close> from any two states of the random
  generator either raise the same exception or return two networks of the same
  architecture (the same tree of layer types, kernel sizes, strides, paddings and
  channel counts); the two networks differ at most in the values that were drawn at
  random.
\<close>

theorem construction_deterministic:
  "map_sum id (arch \<circ> fst) (XResNet_init blk layers num_classes g1)
     = map_sum id (arch \<circ> fst) (XResNet_init blk layers num_classes g2)
   \<and> map_sum id (forget_draws \<circ> fst) (XResNet_init blk layers num_classes g1)
     = map_sum id (forget_draws \<circ> fst) (XResNet_init blk layers num_classes g2)"
proof (cases "constructible layers num_classes")
  case True
  obtain m1 h1 where r1: "XResNet_init blk layers num_classes g1 = Inr (m1, h1)"
    "modules_loop (fst (init_cnn (assembled blk layers num_classes) g1))
       (snd (init_cnn (assembled blk layers num_classes) g1)) = Inr (m1, h1)"
    using XResNet_init_runs[OF True, of blk g1] by auto
  obtain m2 h2 where r2: "XResNet_init blk layers num_classes g2 = Inr (m2, h2)"
    "modules_loop (fst (init_cnn (assembled blk layers num_classes) g2))
       (snd (init_cnn (assembled blk layers num_classes) g2)) = Inr (m2, h2)"
    using XResNet_init_runs[OF True, of blk g2] by auto
  have "arch m1 = arch m2"
    using XResNet_init_arch[OF r1(1)] XResNet_init_arch[OF r2(1)] by simp
  moreover have "forget_draws m1 = forget_draws m2"
    by (rule fd_modules_loop[OF fd_init_cnn r1(2) r2(2)])
  ultimately show ?thesis using r1(1) r2(1) by simp
next
  case False
  then show ?thesis using XResNet_init_refused[OF False, of blk] by auto
qed

section \<open>Claims about the initialisation\<close>

lemma set_prefixed: "set (prefixed a xs) = nest a ` set xs"
  by (simp add: prefixed_def nest_def)

lemma final_path_head_pre: "final_path_head (a # p, m) = map ((#) a) (final_path_head (p, m))"
  by (cases m) simp_all

lemma heads_prefixed:
  "(\<Union>x\<in>set (prefixed a xs). set (final_path_head x))
     = (#) a ` (\<Union>x\<in>set xs. set (final_path_head x))"
  by (induction xs) (auto simp: prefixed_def final_path_head_pre)

lemma zeroed_leaf [simp]:
  "zeroed (Conv2d i o' k s p w b) = {}" "zeroed (ReLU v) = {}" "zeroed (BatchNorm2d n w1 b1) = {}"
  "zeroed (BatchNorm1d n w1 b1) = {}" "zeroed (MaxPool2d k s p) = {}" "zeroed (AvgPool2d k s) = {}"
  "zeroed (AdaptiveAvgPool2d k) = {}" "zeroed (Linear i o' w1 b1) = {}"
  by (simp_all add: zeroed_def zeroed_paths_def)

lemma zeroed_Sequential: "zeroed (Sequential ms) = zeroed_from 0 ms"
  by (simp add: zeroed_def zeroed_from_def zeroed_paths_def)

lemma zeroed_from_simps [simp]:
  "zeroed_from i [] = {}"
  "zeroed_from i (m # ms) = (#) (Idx i) ` zeroed m \<union> zeroed_from (Suc i) ms"
  by (simp_all add: zeroed_def zeroed_from_def zeroed_paths_def heads_prefixed)

lemma zeroed_BasicBlock:
  "zeroed (BasicBlock c1 c2 ds s) =
     {[Attr ''conv2'', Idx 0]} \<union> (#) (Attr ''conv1'') ` zeroed c1 \<union> (#) (Attr ''conv2'') ` zeroed c2
     \<union> (case ds of None \<Rightarrow> {} | Some d \<Rightarrow> (#) (Attr ''downsample'') ` zeroed d)"
  by (cases ds) (auto simp: zeroed_def zeroed_paths_def heads_prefixed)

lemma zeroed_Bottleneck:
  "zeroed (Bottleneck c1 c2 c3 ds s) =
     {[Attr ''conv3'', Idx 0]} \<union> (#) (Attr ''conv1'') ` zeroed c1 \<union> (#) (Attr ''conv2'') ` zeroed c2
     \<union> (#) (Attr ''conv3'') ` zeroed c3
     \<union> (case ds of None \<Rightarrow> {} | Some d \<Rightarrow> (#) (Attr ''downsample'') ` zeroed d)"
  by (cases ds) (auto simp: zeroed_def zeroed_paths_def heads_prefixed)

lemma zeroed_XResNet:
  "zeroed (XResNet n c1 c2 c3 mp l1 l2 l3 l4 ap f) =
     (#) (Attr ''conv1'') ` zeroed c1 \<union> (#) (Attr ''conv2'') ` zeroed c2 \<union> (#) (Attr ''conv3'') ` zeroed c3
     \<union> (#) (Attr ''maxpool'') ` zeroed mp \<union> (#) (Attr ''layer1'') ` zeroed l1
     \<union> (#) (Attr ''layer2'') ` zeroed l2 \<union> (#) (Attr ''layer3'') ` zeroed l3
     \<union> (#) (Attr ''layer4'') ` zeroed l4 \<union> (#) (Attr ''avgpool'') ` zeroed ap
     \<union> (#) (Attr ''fc'') ` zeroed f"
  by (simp add: zeroed_def zeroed_paths_def heads_prefixed Un_assoc)

lemma named_children_Idx:
  "(q, c) \<in> set (named_children i ms) \<Longrightarrow> \<exists>j p. q = Idx j # p \<and> i \<le> j"
  by (induction ms arbitrary: i) (fastforce simp: set_prefixed nest_def)+

lemma zeroed_from_Idx: "q \<in> zeroed_from i ms \<Longrightarrow> \<exists>j p. q = Idx j # p \<and> i \<le> j"
  by (induction ms arbitrary: i) fastforce+

lemma nest_mem [simp]:
  "(a # p, c) \<in> nest b ` S \<longleftrightarrow> a = b \<and> (p, c) \<in> S"
  "([], c) \<notin> nest b ` S"
  by (auto simp: nest_def)

lemma Cons_mem [simp]:
  "a # p \<in> (#) b ` T \<longleftrightarrow> a = b \<and> p \<in> T"
  "[] \<notin> (#) b ` T"
  by auto

lemma nest_cases: "x \<in> nest b ` S \<Longrightarrow> \<exists>p c. x = (b # p, c) \<and> (p, c) \<in> S"
  by (auto simp: nest_def)

lemma pathwise_children:
  "(\<And>m. m \<in> set ms \<Longrightarrow> pathwise False m) \<Longrightarrow> pathwise_children i ms"
proof (induction ms arbitrary: i)
  case Nil
  then show ?case by (simp add: pathwise_children_def)
next
  case (Cons m ms)
  have m: "pathwise False m" and r: "pathwise_children (Suc i) ms"
    using Cons by simp_all
  have no1: "\<And>p. Idx i # p \<notin> zeroed_from (Suc i) ms" using zeroed_from_Idx[of _ "Suc i" ms] by fastforce
  have no2: "\<And>q c. (q, c) \<in> set (named_children (Suc i) ms) \<Longrightarrow> q \<notin> (#) (Idx i) ` zeroed m"
    using named_children_Idx[of _ _ "Suc i" ms] by fastforce
  show ?case
    unfolding pathwise_children_def
  proof (intro conjI ballI)
    fix x assume x: "x \<in> set (named_children i (m # ms))"
    show "case x of (p, c) \<Rightarrow> param_ok (p \<in> zeroed_from i (m # ms)) c"
    proof (cases "x \<in> nest (Idx i) ` set (named_modules m)")
      case True
      then obtain p c where "x = (Idx i # p, c)" "(p, c) \<in> set (named_modules m)"
        using nest_cases by blast
      then show ?thesis using m no1 by (auto simp: pathwise_def)
    next
      case False
      with x have "x \<in> set (named_children (Suc i) ms)" by (simp add: set_prefixed)
      then show ?thesis using r no2[of "fst x" "snd x"]
        by (cases x) (auto simp: pathwise_children_def)
    qed
  next
    fix p assume "p \<in> zeroed_from i (m # ms)"
    then show "\<exists>n. (p, BatchNorm2d n (Constant 0) (Constant 0)) \<in> set (named_children i (m # ms))"
      using m r by (auto simp: pathwise_def pathwise_children_def set_prefixed; blast)
  qed
qed

lemma root_named: "([], m) \<in> set (named_modules m)"
  by (cases m) simp_all

lemma pathwise_leaf:
  "pathwise False (ReLU v)" "pathwise False (BatchNorm1d n w b)" "pathwise False (MaxPool2d k s p)"
  "pathwise False (AvgPool2d k s)" "pathwise False (AdaptiveAvgPool2d k)"
  "is_kaiming w \<Longrightarrow> bo = None \<or> bo = Some (Constant 0) \<Longrightarrow>
     pathwise False (Conv2d i o' k s p w bo)"
  "is_normal_001 w \<Longrightarrow> pathwise False (Linear i o' w b)"
  "pathwise z (BatchNorm2d n (Constant (if z then 0 else 1)) (Constant 0))"
  by (auto simp: pathwise_def)

lemma pathwise_Sequential: "pathwise_children 0 ms \<Longrightarrow> pathwise False (Sequential ms)"
  by (auto simp: pathwise_def pathwise_children_def zeroed_Sequential)

lemma pathwise_head_Sequential:
  assumes x: "pathwise True x" and xs: "pathwise_children (Suc 0) xs"
  shows "pathwise_head (Sequential (x # xs))"
proof -
  obtain n where n: "x = BatchNorm2d n (Constant 0) (Constant 0)"
    using x by (auto simp: pathwise_def)
  have no1: "\<And>p. Idx 0 # p \<notin> zeroed_from (Suc 0) xs" using zeroed_from_Idx[of _ "Suc 0" xs] by fastforce
  have no2: "\<And>q c. (q, c) \<in> set (named_children (Suc 0) xs) \<Longrightarrow>
      q \<notin> (#) (Idx 0) ` zeroed x \<and> q \<noteq> [Idx 0]"
    using named_children_Idx[of _ _ "Suc 0" xs] by fastforce
  show ?thesis
    unfolding pathwise_head_def
  proof (intro conjI ballI)
    fix y assume y: "y \<in> set (named_modules (Sequential (x # xs)))"
    then consider "y = ([], Sequential (x # xs))"
      | p c where "y = (Idx 0 # p, c)" "(p, c) \<in> set (named_modules x)"
      | "y \<in> set (named_children (Suc 0) xs)"
      by (auto simp: set_prefixed nest_def)
    then show "case y of (p, c) \<Rightarrow> param_ok (p = [Idx 0] \<or> p \<in> zeroed (Sequential (x # xs))) c"
    proof cases
      case 1
      then show ?thesis by simp
    next
      case 2
      then show ?thesis using n by (auto simp: zeroed_Sequential)
    next
      case 3
      then show ?thesis using xs no2[of "fst y" "snd y"]
        by (cases y) (auto simp: pathwise_children_def zeroed_Sequential)
    qed
  next
    fix p assume "p \<in> insert [Idx 0] (zeroed (Sequential (x # xs)))"
    then consider "p = [Idx 0]" | "p \<in> zeroed_from (Suc 0) xs"
      using n by (auto simp: zeroed_Sequential)
    then show "\<exists>k. (p, BatchNorm2d k (Constant 0) (Constant 0))
        \<in> set (named_modules (Sequential (x # xs)))"
    proof cases
      case 1
      then show ?thesis using n by (auto simp: set_prefixed nest_def)
    next
      case 2
      then show ?thesis using xs by (auto simp: pathwise_children_def set_prefixed)
    qed
  qed
qed

lemma pathwise_BasicBlock:
  assumes "pathwise False c1" "pathwise_head c2"
    "case ds of None \<Rightarrow> True | Some d \<Rightarrow> pathwise False d"
  shows "pathwise False (BasicBlock c1 c2 ds s)"
proof (cases ds)
  case None
  show ?thesis
    unfolding pathwise_def
  proof (intro conjI ballI impI)
    fix y assume "y \<in> set (named_modules (BasicBlock c1 c2 ds s))"
    then show "case y of (p, c) \<Rightarrow> param_ok (p \<in> zeroed (BasicBlock c1 c2 ds s) \<or> False \<and> p = []) c"
      using assms(1,2) None
      by (auto simp: pathwise_def pathwise_head_def set_prefixed nest_def zeroed_BasicBlock)
  next
    fix p assume "p \<in> zeroed (BasicBlock c1 c2 ds s)"
    then show "\<exists>n. (p, BatchNorm2d n (Constant 0) (Constant 0))
        \<in> set (named_modules (BasicBlock c1 c2 ds s))"
      using assms(1,2) None
      by (auto simp: pathwise_def pathwise_head_def set_prefixed zeroed_BasicBlock)
  qed simp
next
  case (Some d)
  then have d: "pathwise False d" using assms(3) by simp
  show ?thesis
    unfolding pathwise_def
  proof (intro conjI ballI impI)
    fix y assume "y \<in> set (named_modules (BasicBlock c1 c2 ds s))"
    then show "case y of (p, c) \<Rightarrow> param_ok (p \<in> zeroed (BasicBlock c1 c2 ds s) \<or> False \<and> p = []) c"
      using assms(1,2) d Some
      by (auto simp: pathwise_def pathwise_head_def set_prefixed nest_def zeroed_BasicBlock)
  next
    fix p assume "p \<in> zeroed (BasicBlock c1 c2 ds s)"
    then show "\<exists>n. (p, BatchNorm2d n (Constant 0) (Constant 0))
        \<in> set (named_modules (BasicBlock c1 c2 ds s))"
      using assms(1,2) d Some
      by (auto simp: pathwise_def pathwise_head_def set_prefixed zeroed_BasicBlock)
  qed simp
qed
lemma pathwise_Bottleneck:
  assumes "pathwise False c1" "pathwise False c2" "pathwise_head c3"
    "case ds of None \<Rightarrow> True | Some d \<Rightarrow> pathwise False d"
  shows "pathwise False (Bottleneck c1 c2 c3 ds s)"
proof (cases ds)
  case None
  show ?thesis
    unfolding pathwise_def
  proof (intro conjI ballI impI)
    fix y assume "y \<in> set (named_modules (Bottleneck c1 c2 c3 ds s))"
    then show "case y of (p, c) \<Rightarrow> param_ok (p \<in> zeroed (Bottleneck c1 c2 c3 ds s) \<or> False \<and> p = []) c"
      using assms(1,2,3) None
      by (auto simp: pathwise_def pathwise_head_def set_prefixed nest_def zeroed_Bottleneck)
  next
    fix p assume "p \<in> zeroed (Bottleneck c1 c2 c3 ds s)"
    then show "\<exists>n. (p, BatchNorm2d n (Constant 0) (Constant 0))
        \<in> set (named_modules (Bottleneck c1 c2 c3 ds s))"
      using assms(1,2,3) None
      by (auto simp: pathwise_def pathwise_head_def set_prefixed zeroed_Bottleneck)
  qed simp
next
  case (Some d)
  then have d: "pathwise False d" using assms(4) by simp
  show ?thesis
    unfolding pathwise_def
  proof (intro conjI ballI impI)
    fix y assume "y \<in> set (named_modules (Bottleneck c1 c2 c3 ds s))"
    then show "case y of (p, c) \<Rightarrow> param_ok (p \<in> zeroed (Bottleneck c1 c2 c3 ds s) \<or> False \<and> p = []) c"
      using assms(1,2,3) d Some
      by (auto simp: pathwise_def pathwise_head_def set_prefixed nest_def zeroed_Bottleneck)
  next
    fix p assume "p \<in> zeroed (Bottleneck c1 c2 c3 ds s)"
    then show "\<exists>n. (p, BatchNorm2d n (Constant 0) (Constant 0))
        \<in> set (named_modules (Bottleneck c1 c2 c3 ds s))"
      using assms(1,2,3) d Some
      by (auto simp: pathwise_def pathwise_head_def set_prefixed zeroed_Bottleneck)
  qed simp
qed

lemma pathwise_XResNet:
  assumes "pathwise False c1" "pathwise False c2" "pathwise False c3" "pathwise False mp"
    "pathwise False l1" "pathwise False l2" "pathwise False l3" "pathwise False l4"
    "pathwise False ap" "pathwise False f"
  shows "pathwise False (XResNet n c1 c2 c3 mp l1 l2 l3 l4 ap f)"
  unfolding pathwise_def
proof (intro conjI ballI impI)
  fix y assume "y \<in> set (named_modules (XResNet n c1 c2 c3 mp l1 l2 l3 l4 ap f))"
  then show "case y of (p, c) \<Rightarrow>
      param_ok (p \<in> zeroed (XResNet n c1 c2 c3 mp l1 l2 l3 l4 ap f) \<or> False \<and> p = []) c"
    using assms
    by (auto simp: pathwise_def set_prefixed nest_def zeroed_XResNet)
next
  fix p assume "p \<in> zeroed (XResNet n c1 c2 c3 mp l1 l2 l3 l4 ap f)"
  then show "\<exists>k. (p, BatchNorm2d k (Constant 0) (Constant 0))
      \<in> set (named_modules (XResNet n c1 c2 c3 mp l1 l2 l3 l4 ap f))"
    using assms
    by (auto simp: pathwise_def set_prefixed zeroed_XResNet)
qed simp

lemma inited_pathwise:
  "inited z m \<Longrightarrow> pathwise z m"
  "inited_head m \<Longrightarrow> pathwise_head m"
proof (induction z m and m rule: inited_inited_head.induct)
  case (4 z ms)
  then show ?case
    by (auto simp: list_all_iff intro!: pathwise_Sequential pathwise_children)
next
  case (5 z c1 c2 ds s)
  then show ?case by (cases ds) (auto intro!: pathwise_BasicBlock)
next
  case (6 z c1 c2 c3 ds s)
  then show ?case by (cases ds) (auto intro!: pathwise_Bottleneck)
next
  case (7 z n c1 c2 c3 mp l1 l2 l3 l4 ap f)
  then show ?case by (auto intro!: pathwise_XResNet)
next
  case (13 x xs)
  then show ?case
    by (auto simp: list_all_iff intro!: pathwise_head_Sequential pathwise_children)
qed (auto simp: pathwise_leaf)

lemma XResNet_init_inited:
  assumes "XResNet_init blk layers num_classes g = Inr (m, g')"
  shows "inited False m"
proof -
  have "constructible layers num_classes" using XResNet_init_arch[OF assms] by simp
  from XResNet_init_ok[OF this, of blk g] show ?thesis using assms by auto
qed

text \<open>
  Claim C4. In a network returned by \<^verbatim>\<open>XResNet.__init__\<close>, whatever its named module:
  a \<^verbatim>\<open>Conv2d\<close> has a weight drawn by \<^verbatim>\<open>kaiming_normal_\<close> and a bias that is absent
  or 0; a \<^verbatim>\<open>BatchNorm2d\<close> has bias 0, and weight 1 unless its path is that of index 0
  of \<^verbatim>\<open>conv2\<close> of a \<^verbatim>\<open>BasicBlock\<close> or of \<^verbatim>\<open>conv3\<close> of a \<^verbatim>\<open>Bottleneck\<close>, where the
  weight is 0; a \<^verbatim>\<open>Linear\<close> has a weight drawn from the normal distribution of mean 0
  and deviation 0.01. Every such path of index 0 holds a \<^verbatim>\<open>BatchNorm2d\<close>, not a
  convolution.
\<close>

theorem initialised_parameters:
  assumes "XResNet_init blk layers num_classes g = Inr (m, g')"
  shows "(\<forall>(p, c) \<in> set (named_modules m). param_ok (p \<in> set (zeroed_paths m)) c)
       \<and> (\<forall>p \<in> set (zeroed_paths m).
            \<exists>n. (p, BatchNorm2d n (Constant 0) (Constant 0)) \<in> set (named_modules m))"
  using inited_pathwise(1)[OF XResNet_init_inited[OF assms]]
  by (simp add: pathwise_def zeroed_def)

text \<open>A network of basic blocks, one per stage, and its four zeroed paths.\<close>

theorem initialised_parameters_witness:
  "\<exists>m g'. XResNet_init BasicBlock_class [1, 1, 1, 1] 10 0 = Inr (m, g')
     \<and> zeroed_paths m =
         [[Attr ''layer1'', Idx 0, Attr ''conv2'', Idx 0],
          [Attr ''layer2'', Idx 0, Attr ''conv2'', Idx 0],
          [Attr ''layer3'', Idx 0, Attr ''conv2'', Idx 0],
          [Attr ''layer4'', Idx 0, Attr ''conv2'', Idx 0]]
     \<and> (\<forall>(p, c) \<in> set (named_modules m). param_ok (p \<in> set (zeroed_paths m)) c)
     \<and> (\<forall>p \<in> set (zeroed_paths m).
          \<exists>n. (p, BatchNorm2d n (Constant 0) (Constant 0)) \<in> set (named_modules m))"
proof -
  have e: "case XResNet_init BasicBlock_class [1, 1, 1, 1] 10 0 of
             Inl e \<Rightarrow> False
           | Inr (m, g') \<Rightarrow> zeroed_paths m =
               [[Attr ''layer1'', Idx 0, Attr ''conv2'', Idx 0],
                [Attr ''layer2'', Idx 0, Attr ''conv2'', Idx 0],
                [Attr ''layer3'', Idx 0, Attr ''conv2'', Idx 0],
                [Attr ''layer4'', Idx 0, Attr ''conv2'', Idx 0]]"
    by code_simp
  then obtain m g' where i: "XResNet_init BasicBlock_class [1, 1, 1, 1] 10 0 = Inr (m, g')"
    by (auto split: sum.splits)
  show ?thesis using e i initialised_parameters[OF i] by auto
qed

end
